theory Spec2Isabelle
  imports Main "HOL-Library.AList" "HOL-Library.Sublist"
begin

section \<open>JavaScript values, objects and the heap\<close>

text \<open>
  The values a labs flag can hold are JSON values. Numbers are modelled by integers
  (\<open>NaN\<close> and fractions play no part in the code below); an array counts as an object
  keyed by its indices. A nested object is a tree held by value.
\<close>

datatype jsval =
    JUndefined
  | JNull
  | JBool bool
  | JNum int
  | JStr string
  | JObj "(string \<times> jsval) list"

text \<open>An object is its list of own properties, in insertion order.\<close>

type_synonym jsobject = "(string \<times> jsval) list"

text \<open>JavaScript truthiness, as the \<open>&&\<close>, \<open>||\<close>, \<open>!\<close> and \<open>if\<close> of the source test it.\<close>

fun truthy :: "jsval \<Rightarrow> bool" where
  "truthy JUndefined = False"
| "truthy JNull = False"
| "truthy (JBool b) = b"
| "truthy (JNum n) = (n \<noteq> 0)"
| "truthy (JStr s) = (s \<noteq> [])"
| "truthy (JObj kvs) = True"

text \<open>
  \<open>obj[key]\<close>: the own property, \<open>undefined\<close> when there is none. (Properties inherited
  from \<open>Object.prototype\<close> are functions or objects; no flag name of this module is one of
  them, and none of them is \<open>=== true\<close>.)
\<close>

definition prop_get :: "jsobject \<Rightarrow> string \<Rightarrow> jsval" where
  "prop_get obj k = (case map_of obj k of None \<Rightarrow> JUndefined | Some v \<Rightarrow> v)"

text \<open>\<open>obj[key] = v\<close> and \<open>delete obj[key]\<close>.\<close>

definition prop_set :: "string \<Rightarrow> jsval \<Rightarrow> jsobject \<Rightarrow> jsobject" where
  "prop_set k v obj = AList.update k v obj"

definition prop_delete :: "string \<Rightarrow> jsobject \<Rightarrow> jsobject" where
  "prop_delete k obj = AList.delete k obj"

definition object_keys :: "jsobject \<Rightarrow> string list" where
  "object_keys obj = map fst obj"

text \<open>
  Objects that are shared and mutated live in a heap: an address is an index into the list
  of allocated objects, and a new object is appended, so its address is fresh.
\<close>

type_synonym addr = nat

type_synonym heap = "jsobject list"

definition heap_at :: "heap \<Rightarrow> addr \<Rightarrow> jsobject" where
  "heap_at h a = (if a < length h then h ! a else [])"

definition heap_alloc :: "heap \<Rightarrow> jsobject \<Rightarrow> addr \<times> heap" where
  "heap_alloc h obj = (length h, h @ [obj])"

definition heap_modify :: "addr \<Rightarrow> (jsobject \<Rightarrow> jsobject) \<Rightarrow> heap \<Rightarrow> heap" where
  "heap_modify a f h = (if a < length h then h[a := f (h ! a)] else h)"

text \<open>\<open>_.cloneDeep\<close> on a JSON value: a structural copy, property by property.\<close>

fun cloneDeep :: "jsval \<Rightarrow> jsval" where
  "cloneDeep (JObj kvs) = JObj (map (\<lambda>(k, v). (k, cloneDeep v)) kvs)"
| "cloneDeep v = v"

definition cloneDeep_object :: "jsobject \<Rightarrow> jsobject" where
  "cloneDeep_object obj = map (\<lambda>(k, v). (k, cloneDeep v)) obj"


section \<open>core/shared/labs.js\<close>

subsection \<open>The flag tiers\<close>

definition GA_FEATURES :: "string list" where
  "GA_FEATURES = [''customThemeSettings'']"

definition BETA_FEATURES :: "string list" where
  "BETA_FEATURES = [''activitypub'', ''multipleProducts'']"

definition ALPHA_FEATURES :: "string list" where
  "ALPHA_FEATURES =
     [''oauthLogin'', ''membersActivity'', ''cardSettingsPanel'', ''urlCache'', ''mediaAPI'',
      ''filesAPI'', ''membersAutoLogin'', ''buttonCard'', ''calloutCard'', ''nftCard'',
      ''accordionCard'', ''gifsCard'', ''fileCard'', ''audioCard'', ''videoCard'',
      ''productCard'']"

definition GA_KEYS :: "string list" where
  "GA_KEYS = GA_FEATURES"

definition WRITABLE_KEYS_ALLOWLIST :: "string list" where
  "WRITABLE_KEYS_ALLOWLIST = BETA_FEATURES @ ALPHA_FEATURES"

subsection \<open>The settings cache and the environment\<close>

text \<open>
  The settings cache and the configuration are modules outside this file; what \<open>getAll\<close>
  reads of them is a parameter. \<open>settingsCache.get('labs')\<close> is either no value
  (\<open>None\<close>: the \<open>|| {}\<close> of the source takes over) or the settings object the cache holds,
  given by its address, so that a write through an alias of it would be seen.
  \<open>settingsCache.get('members_signup_access')\<close> is a value.
\<close>

record labs_state =
  heap :: heap
  labs_setting :: "addr option"
  members_signup_access :: jsval

text \<open>
  \<open>config.get('enableDeveloperExperiments')\<close> is a value tested for truthiness.
  \<open>process.env.NODE_ENV\<close> is a string: the source calls \<open>startsWith\<close> on it directly, so a
  process in which the variable is not set is outside this model.
\<close>

record environment =
  enableDeveloperExperiments :: jsval
  NODE_ENV :: string

subsection \<open>getAll\<close>

text \<open>
  \<open>config.get('enableDeveloperExperiments') || process.env.NODE_ENV.startsWith('test')\<close>
\<close>

definition developer_experiments :: "environment \<Rightarrow> bool" where
  "developer_experiments env =
     (truthy (enableDeveloperExperiments env) \<or> prefix ''test'' (NODE_ENV env))"

text \<open>The body of the loop over \<open>ALPHA_FEATURES\<close>, on the heap, for the object at \<open>labs\<close>.\<close>

definition hide_alpha :: "environment \<Rightarrow> addr \<Rightarrow> string \<Rightarrow> heap \<Rightarrow> heap" where
  "hide_alpha env labs alphaKey h =
     (if truthy (prop_get (heap_at h labs) alphaKey) \<and> \<not> developer_experiments env
      then heap_modify labs (prop_delete alphaKey) h
      else h)"

text \<open>The body of the loop over \<open>GA_FEATURES\<close>.\<close>

definition force_ga :: "addr \<Rightarrow> string \<Rightarrow> heap \<Rightarrow> heap" where
  "force_ga labs gaKey h = heap_modify labs (prop_set gaKey (JBool True)) h"

text \<open>
  \<open>getAll\<close> returns the address of the object it built, and the state it leaves behind.
\<close>

definition getAll :: "environment \<Rightarrow> labs_state \<Rightarrow> addr \<times> labs_state" where
  "getAll env st =
     (let (labs, h1) =
            (case labs_setting st of
               None \<Rightarrow> heap_alloc (heap st) []
             | Some a \<Rightarrow> heap_alloc (heap st) (cloneDeep_object (heap_at (heap st) a)));
          h2 = fold (hide_alpha env labs) ALPHA_FEATURES h1;
          h3 = fold (force_ga labs) GA_FEATURES h2;
          h4 = heap_modify labs
                 (prop_set ''members'' (JBool (members_signup_access st \<noteq> JStr ''none''))) h3
      in (labs, st\<lparr>heap := h4\<rparr>))"

text \<open>The object \<open>getAll\<close> returns, read from the heap it leaves.\<close>

definition getAll_object :: "environment \<Rightarrow> labs_state \<Rightarrow> jsobject" where
  "getAll_object env st = (let (labs, st') = getAll env st in heap_at (heap st') labs)"

text \<open>The object the cache holds for the labs setting (empty when there is none).\<close>

definition stored_labs :: "labs_state \<Rightarrow> jsobject" where
  "stored_labs st = (case labs_setting st of None \<Rightarrow> [] | Some a \<Rightarrow> heap_at (heap st) a)"

subsection \<open>isSet\<close>

text \<open>
  \<open>!!(labsConfig && labsConfig[flag] && labsConfig[flag] === true)\<close>; \<open>labsConfig\<close> is an
  object, hence truthy. The object built by \<open>getAll\<close> is dropped on return.
\<close>

definition isSet :: "environment \<Rightarrow> labs_state \<Rightarrow> string \<Rightarrow> bool" where
  "isSet env st flag =
     (let labsConfig = getAll_object env st
      in truthy (JObj labsConfig) \<and> truthy (prop_get labsConfig flag)
           \<and> prop_get labsConfig flag = JBool True)"

text \<open>
  For the proofs: the two loop bodies and the whole of \<open>getAll\<close> on the copied object
  alone, once it is known to sit at a fresh address.
\<close>

definition hide_alpha_object :: "environment \<Rightarrow> string \<Rightarrow> jsobject \<Rightarrow> jsobject" where
  "hide_alpha_object env alphaKey obj =
     (if truthy (prop_get obj alphaKey) \<and> \<not> developer_experiments env
      then prop_delete alphaKey obj else obj)"

definition labs_object :: "environment \<Rightarrow> jsval \<Rightarrow> jsobject \<Rightarrow> jsobject" where
  "labs_object env access obj =
     prop_set ''members'' (JBool (access \<noteq> JStr ''none''))
       (fold (\<lambda>k. prop_set k (JBool True)) GA_FEATURES
          (fold (hide_alpha_object env) ALPHA_FEATURES obj))"

definition is_boolean :: "jsval \<Rightarrow> bool" where
  "is_boolean v = (case v of JBool b \<Rightarrow> True | _ \<Rightarrow> False)"

subsection \<open>enabledHelper\<close>

definition backslash :: char where
  "backslash = CHR 0x5C"

definition double_quote :: char where
  "double_quote = CHR 0x22"

text \<open>The \<open>messages\<close> table (a \<open>\\\<close> in the JavaScript literal is one backslash).\<close>

definition messages_errorMessage :: string where
  "messages_errorMessage =
     ''The '' @ [backslash] @ ''{'' @ [backslash] @ ''{{helperName}'' @ [backslash] @ ''}''
       @ [backslash] @ ''} helper is not available.''"

definition messages_errorContext :: string where
  "messages_errorContext =
     ''The {flagName} flag must be enabled in labs if you wish to use the '' @ [backslash]
       @ ''{'' @ [backslash] @ ''{{helperName}'' @ [backslash] @ ''}'' @ [backslash]
       @ ''} helper.''"

definition messages_errorHelp :: string where
  "messages_errorHelp = ''See {url}''"

text \<open>
  The options object. \<open>flagKey\<close> is the string handed to \<open>isSet\<close>; the other properties are
  used as they come (\<open>JUndefined\<close> when absent).
\<close>

record helper_options =
  flagKey :: string
  flagName :: jsval
  helperName :: jsval
  errorMessage :: jsval
  errorContext :: jsval
  errorHelp :: jsval
  helpUrl :: jsval
  async :: jsval

record error_details =
  err_message :: string
  err_context :: string
  err_help :: string

datatype ghost_error = DisabledFeatureError error_details | NotFoundError

datatype safe_string = SafeString string

text \<open>
  What \<open>enabledHelper\<close> returns: the callback's result, the error string, or a promise
  resolved with the error string (\<open>Promise.resolve(errString)\<close>).
\<close>

datatype 'r helper_return = FromCallback 'r | Plain safe_string | ResolvedPromise safe_string

text \<open>\<open>a || b\<close> on values.\<close>

definition js_or :: "jsval \<Rightarrow> jsval \<Rightarrow> jsval" where
  "js_or a b = (if truthy a then a else b)"

text \<open>
  The template function \<open>tpl\<close> of \<open>@tryghost/tpl\<close> is a parameter: it takes the template
  and the data object and gives the interpolated string.
\<close>

type_synonym tpl = "jsval \<Rightarrow> jsobject \<Rightarrow> string"

definition errDetails :: "tpl \<Rightarrow> helper_options \<Rightarrow> error_details" where
  "errDetails tpl options =
     \<lparr>err_message = tpl (js_or (errorMessage options) (JStr messages_errorMessage))
                  [(''helperName'', helperName options)],
      err_context = tpl (js_or (errorContext options) (JStr messages_errorContext))
                  [(''helperName'', helperName options), (''flagName'', flagName options)],
      err_help = tpl (js_or (errorHelp options) (JStr messages_errorHelp))
               [(''url'', helpUrl options)]\<rparr>"

text \<open>
  \<open>new SafeString(`<script>console.error("${_.values(errDetails).join(' ')}");</script>`)\<close>
\<close>

definition errString :: "error_details \<Rightarrow> safe_string" where
  "errString d =
     SafeString (''<script>console.error('' @ [double_quote]
       @ err_message d @ '' '' @ err_context d @ '' '' @ err_help d
       @ [double_quote] @ '');</script>'')"

text \<open>
  \<open>enabledHelper\<close> gives the errors handed to \<open>logging.error\<close>, in order, and the value
  returned. The callback is called in the first branch only.
\<close>

definition enabledHelper ::
  "tpl \<Rightarrow> environment \<Rightarrow> labs_state \<Rightarrow> helper_options \<Rightarrow> (unit \<Rightarrow> 'r)
     \<Rightarrow> ghost_error list \<times> 'r helper_return" where
  "enabledHelper tpl env st options callback =
     (if isSet env st (flagKey options) = True then ([], FromCallback (callback ()))
      else
        (let d = errDetails tpl options;
             logged = [DisabledFeatureError d];
             s = errString d
         in if truthy (async options) then (logged, ResolvedPromise s) else (logged, Plain s)))"

subsection \<open>enabledMiddleware\<close>

text \<open>
  The middleware \<open>(req, res, next) => ...\<close> in continuation style: \<open>next\<close> receives the
  response as the middleware leaves it, and its argument.
\<close>

datatype next_argument = NoArgument | ErrorArgument ghost_error

definition enabledMiddleware ::
  "environment \<Rightarrow> labs_state \<Rightarrow> string \<Rightarrow> 'req \<Rightarrow> 'res \<Rightarrow> ('res \<Rightarrow> next_argument \<Rightarrow> 'out) \<Rightarrow> 'out"
  where
  "enabledMiddleware env st flag req res next =
     (if isSet env st flag = True then next res NoArgument
      else next res (ErrorArgument NotFoundError))"


section \<open>test/utils/e2e-utils.js\<close>

subsection \<open>Calls, replies and the trace\<close>

text \<open>
  Every call the utilities make into another module is a step. \<open>Debug\<close> is the
  \<open>debug(...)\<close> logger, \<open>ToJSON key\<close> the call \<open>results[i].toJSON(context.internal)\<close> for the
  fixture \<open>key\<close>. The reporting at the end of \<open>startGhost\<close> (\<open>Date.now()\<close>,
  \<open>totalStartTime\<close> and its two debug lines) is left out.
\<close>

datatype error = Error string

datatype step =
    Debug string
  | ConfigSet string string
  | EnsureDirSync "string list"
  | CopySync "string list" "string list"
  | RedirectsSetupFile string string
  | DbTeardown
  | KnexMigratorInit "nat option"
  | KnexMigratorReset
  | SettingsInit
  | SettingsShutdown
  | RouteSettingsInit
  | ThemeInit
  | UrlUtilsReset
  | UrlUtilsInit bool
  | UrlUtilsIsFinished
  | UrlResetGenerators
  | CustomRedirectsInit
  | LimitsInit
  | ServerStop
  | DeleteRequireCache
  | Boot bool bool
  | FindAll string
  | ToJSON string
  | ConsoleError error
  | ProcessExit nat

text \<open>
  What a call does: it returns (and the promise it may have returned resolves), it throws at
  once, or it returns a promise that rejects.
\<close>

datatype reply = Completes | Throws error | Rejects error

text \<open>
  A run records what it does in a trace: \<open>Call s\<close> for a call whose result is not awaited,
  \<open>Await s\<close> for the start of a call under \<open>await\<close>, and \<open>Settled s\<close> when the promise of an
  awaited call has resolved and the \<open>await\<close> has returned.
\<close>

datatype event = Call step | Await step | Settled step

text \<open>The server object \<open>boot\<close> resolves to; \<open>httpServer\<close> says whether that property is truthy.\<close>

datatype server = GhostServer (server_id: nat) (httpServer: bool)

type_synonym collection = "string list"

type_synonym json = "string list"

text \<open>
  The world outside: how a call replies, given what the run has done so far; what \<open>boot\<close>
  resolves to; for each model, what a \<open>findAll\<close> that resolves gives and when its promise
  settles; what \<open>toJSON(context.internal)\<close> makes of a collection when it returns; and the
  default content folder \<open>path.join(os.tmpdir(), uuid.v4(), 'ghost-test')\<close>.
\<close>

record world =
  behaves :: "event list \<Rightarrow> step \<Rightarrow> reply"
  boot_result :: server
  found :: "string \<Rightarrow> collection"
  settle_time :: "string \<Rightarrow> nat"
  toJSON :: "collection \<Rightarrow> json"
  tmp_content_folder :: string

text \<open>
  The logger, \<open>console.error\<close> and \<open>process.exit\<close> do not throw; every other step, the
  queries and \<open>toJSON\<close> among them, may.
\<close>

fun infallible :: "step \<Rightarrow> bool" where
  "infallible (Debug m) = True"
| "infallible (ConsoleError e) = True"
| "infallible (ProcessExit n) = True"
| "infallible s = False"

definition reply :: "world \<Rightarrow> event list \<Rightarrow> step \<Rightarrow> reply" where
  "reply w tr s = (if infallible s then Completes else behaves w tr s)"

text \<open>The module's variables \<open>ghostServer\<close> and \<open>existingData\<close>, and the trace.\<close>

record e2e_state =
  ghostServer :: "server option"
  existingData :: "(string \<times> json) list"
  trace :: "event list"

text \<open>
  How a piece of code ends: it returns a value, it throws (an \<open>async\<close> function rejects), or
  the process exits.
\<close>

datatype 'a completion = Returned 'a | Thrown error | Exited nat

type_synonym 'a prog = "e2e_state \<Rightarrow> 'a completion \<times> e2e_state"

definition ret :: "'a \<Rightarrow> 'a prog" where
  "ret x = (\<lambda>st. (Returned x, st))"

text \<open>
  Sequencing: the rest runs once the first part has returned; a throw or an exit ends the
  run there. The only handler in this file is the \<open>.catch\<close> of \<open>exposeFixtures\<close>.
\<close>

definition and_then :: "'a prog \<Rightarrow> ('a \<Rightarrow> 'b prog) \<Rightarrow> 'b prog" where
  "and_then m f =
     (\<lambda>st. case m st of
             (Returned x, st') \<Rightarrow> f x st'
           | (Thrown e, st') \<Rightarrow> (Thrown e, st')
           | (Exited n, st') \<Rightarrow> (Exited n, st'))"

text \<open>
  A call that is not awaited, \<open>f()\<close>: a throw ends the run; a promise it returns is dropped,
  so the run goes on whether that promise resolves or rejects.
\<close>

definition call :: "world \<Rightarrow> step \<Rightarrow> unit prog" where
  "call w s =
     (\<lambda>st. let st' = st\<lparr>trace := trace st @ [Call s]\<rparr>
           in case reply w (trace st) s of
                Completes \<Rightarrow> (Returned (), st')
              | Throws e \<Rightarrow> (Thrown e, st')
              | Rejects e \<Rightarrow> (Returned (), st'))"

text \<open>
  An awaited call, \<open>await f()\<close>: a throw and a rejection both end the run with the error;
  otherwise the run goes on once the promise has resolved.
\<close>

definition await :: "world \<Rightarrow> step \<Rightarrow> unit prog" where
  "await w s =
     (\<lambda>st. let st' = st\<lparr>trace := trace st @ [Await s]\<rparr>
           in case reply w (trace st) s of
                Completes \<Rightarrow> (Returned (), st'\<lparr>trace := trace st' @ [Settled s]\<rparr>)
              | Throws e \<Rightarrow> (Thrown e, st')
              | Rejects e \<Rightarrow> (Thrown e, st'))"

fun statements :: "unit prog list \<Rightarrow> unit prog" where
  "statements [] = ret ()"
| "statements (m # ms) = and_then m (\<lambda>_. statements ms)"

definition run_if :: "bool \<Rightarrow> unit prog \<Rightarrow> unit prog" where
  "run_if b m = (if b then m else ret ())"

subsection \<open>Options\<close>

record options =
  backend :: bool
  frontend :: bool
  redirectsFile :: bool
  redirectsFileExt :: string
  forceStart :: bool
  copyThemes :: bool
  copySettings :: bool
  contentFolder :: string
  subdir :: bool

text \<open>What the caller passes: any of the properties may be missing.\<close>

record given_options =
  given_backend :: "bool option"
  given_frontend :: "bool option"
  given_redirectsFile :: "bool option"
  given_redirectsFileExt :: "string option"
  given_forceStart :: "bool option"
  given_copyThemes :: "bool option"
  given_copySettings :: "bool option"
  given_contentFolder :: "string option"
  given_subdir :: "bool option"

definition or_default :: "'a option \<Rightarrow> 'a \<Rightarrow> 'a" where
  "or_default x d = (case x of None \<Rightarrow> d | Some v \<Rightarrow> v)"

text \<open>\<open>_.merge({backend: true, ...}, options)\<close>\<close>

definition merge_options :: "world \<Rightarrow> given_options \<Rightarrow> options" where
  "merge_options w g =
     \<lparr>backend = or_default (given_backend g) True,
      frontend = or_default (given_frontend g) True,
      redirectsFile = or_default (given_redirectsFile g) True,
      redirectsFileExt = or_default (given_redirectsFileExt g) ''.json'',
      forceStart = or_default (given_forceStart g) False,
      copyThemes = or_default (given_copyThemes g) True,
      copySettings = or_default (given_copySettings g) True,
      contentFolder = or_default (given_contentFolder g) (tmp_content_folder w),
      subdir = or_default (given_subdir g) False\<rparr>"

subsection \<open>exposeFixtures\<close>

definition fixture_queries :: "(string \<times> string) list" where
  "fixture_queries =
     [(''roles'', ''Role''), (''users'', ''User''), (''tags'', ''Tag''), (''apiKeys'', ''ApiKey'')]"

text \<open>A promise of a collection: when it settles, and to what.\<close>

type_synonym promise = "nat \<times> (error + collection)"

text \<open>
  \<open>models.X.findAll(...)\<close>, not awaited: it throws, or it returns a promise that resolves or
  rejects.
\<close>

definition query :: "world \<Rightarrow> string \<Rightarrow> promise prog" where
  "query w model =
     (\<lambda>st. let st' = st\<lparr>trace := trace st @ [Call (FindAll model)]\<rparr>
           in case reply w (trace st) (FindAll model) of
                Completes \<Rightarrow> (Returned (settle_time w model, Inr (found w model)), st')
              | Throws e \<Rightarrow> (Thrown e, st')
              | Rejects e \<Rightarrow> (Returned (settle_time w model, Inl e), st'))"

text \<open>The object literal \<open>fixturePromises\<close>: the four queries are started in order.\<close>

fun queries :: "world \<Rightarrow> string list \<Rightarrow> promise list prog" where
  "queries w [] = ret []"
| "queries w (model # models) =
     and_then (query w model) (\<lambda>p. and_then (queries w models) (\<lambda>ps. ret (p # ps)))"

text \<open>
  \<open>Promise.all\<close> rejects with the reason of the promise that rejects first; between two
  that reject at the same time the earlier in the list is taken. Otherwise it resolves with
  the results in the order of the list.
\<close>

fun first_rejection :: "promise list \<Rightarrow> (nat \<times> error) option" where
  "first_rejection [] = None"
| "first_rejection ((t, Inr c) # ps) = first_rejection ps"
| "first_rejection ((t, Inl e) # ps) =
     (case first_rejection ps of
        None \<Rightarrow> Some (t, e)
      | Some (t', e') \<Rightarrow> (if t \<le> t' then Some (t, e) else Some (t', e')))"

definition resolved :: "promise \<Rightarrow> collection" where
  "resolved p = (case snd p of Inl e \<Rightarrow> [] | Inr c \<Rightarrow> c)"

definition promise_all :: "promise list \<Rightarrow> error + collection list" where
  "promise_all ps =
     (case first_rejection ps of
        Some (t, e) \<Rightarrow> Inl e
      | None \<Rightarrow> Inr (map resolved ps))"

text \<open>
  The \<open>.then\<close> callback: for each key in turn, \<open>existingData[key] = result.toJSON(...)\<close>. A
  \<open>toJSON\<close> that throws ends the loop with what has been stored so far.
\<close>

fun store_fixtures :: "world \<Rightarrow> (string \<times> collection) list \<Rightarrow> unit prog" where
  "store_fixtures w [] = ret ()"
| "store_fixtures w ((key, result) # rest) =
     and_then (call w (ToJSON key))
       (\<lambda>_ st. store_fixtures w rest
                 (st\<lparr>existingData := existingData st @ [(key, toJSON w result)]\<rparr>))"

text \<open>The \<open>.catch\<close> callback: \<open>console.error(..., err); process.exit(1)\<close>.\<close>

definition report_and_exit :: "error \<Rightarrow> unit prog" where
  "report_and_exit err =
     (\<lambda>st. (Exited 1,
            st\<lparr>trace := trace st @ [Call (ConsoleError err), Call (ProcessExit 1)]\<rparr>))"

text \<open>
  \<open>exposeFixtures\<close>: the queries are started, \<open>existingData\<close> is emptied, and the chain
  \<open>Promise.all(...).then(...).catch(...)\<close> runs. The \<open>.catch\<close> comes after the \<open>.then\<close>, so
  it handles a rejected query and a throw of the \<open>.then\<close> callback alike. A query that
  throws instead of returning a promise ends \<open>exposeFixtures\<close> before the chain exists.
\<close>

definition exposeFixtures :: "world \<Rightarrow> unit prog" where
  "exposeFixtures w =
     and_then (queries w (map snd fixture_queries))
       (\<lambda>fixturePromises st.
          let st1 = st\<lparr>existingData := []\<rparr>
          in case promise_all fixturePromises of
               Inl err \<Rightarrow> report_and_exit err st1
             | Inr results \<Rightarrow>
                 (case store_fixtures w (zip (map fst fixture_queries) results) st1 of
                    (Thrown err, st2) \<Rightarrow> report_and_exit err st2
                  | (Returned u, st2) \<Rightarrow> (Returned u, st2)
                  | (Exited n, st2) \<Rightarrow> (Exited n, st2)))"

subsection \<open>prepareContentFolder\<close>

text \<open>None of its calls is awaited: they are synchronous.\<close>

definition prepareContentFolder :: "world \<Rightarrow> options \<Rightarrow> unit prog" where
  "prepareContentFolder w options =
     (let contentFolderForTests = contentFolder options
      in statements
           [call w (ConfigSet ''paths:contentPath'' contentFolderForTests),
            call w (EnsureDirSync [contentFolderForTests]),
            call w (EnsureDirSync [contentFolderForTests, ''data'']),
            call w (EnsureDirSync [contentFolderForTests, ''themes'']),
            call w (EnsureDirSync [contentFolderForTests, ''images'']),
            call w (EnsureDirSync [contentFolderForTests, ''logs'']),
            call w (EnsureDirSync [contentFolderForTests, ''adapters'']),
            call w (EnsureDirSync [contentFolderForTests, ''settings'']),
            run_if (copyThemes options)
              (call w (CopySync [''__dirname'', ''fixtures'', ''themes'']
                         [contentFolderForTests, ''themes''])),
            run_if (redirectsFile options)
              (call w (RedirectsSetupFile contentFolderForTests (redirectsFileExt options))),
            run_if (copySettings options)
              (call w (CopySync [''__dirname'', ''fixtures'', ''settings'', ''routes.yaml'']
                         [contentFolderForTests, ''settings'', ''routes.yaml'']))])"

subsection \<open>restartModeGhostStart\<close>

text \<open>
  \<open>urlServiceUtils.reset()\<close>, \<open>urlServiceUtils.init(...)\<close> and \<open>limits.init()\<close> are called
  without \<open>await\<close>; the other services are awaited.
\<close>

definition restartModeGhostStart :: "world \<Rightarrow> options \<Rightarrow> unit prog" where
  "restartModeGhostStart w options =
     statements
       [call w (Debug ''Reload Mode''),
        await w DbTeardown,
        await w (KnexMigratorInit (Some 2)),
        call w (Debug ''init done''),
        await w SettingsInit,
        call w (Debug ''settings done''),
        run_if (frontend options)
          (statements
             [await w RouteSettingsInit,
              await w ThemeInit,
              call w (Debug ''frontend done'')]),
        call w UrlUtilsReset,
        call w (UrlUtilsInit (\<not> frontend options)),
        run_if (frontend options) (await w UrlUtilsIsFinished),
        call w (Debug ''routes done''),
        await w CustomRedirectsInit,
        call w LimitsInit]"

subsection \<open>bootGhost, stopGhost, freshModeGhostStart\<close>

definition bootGhost :: "world \<Rightarrow> options \<Rightarrow> unit prog" where
  "bootGhost w options =
     and_then (await w (Boot (backend options) (frontend options)))
       (\<lambda>_ st. (Returned (), st\<lparr>ghostServer := Some (boot_result w)\<rparr>))"

text \<open>
  \<open>ghostServer && ghostServer.httpServer\<close>. What \<open>ghostServer.stop()\<close> does to the server
  object is the server's business; the variable \<open>ghostServer\<close> is assigned by \<open>bootGhost\<close>
  only.
\<close>

definition server_running :: "e2e_state \<Rightarrow> bool" where
  "server_running st = (case ghostServer st of None \<Rightarrow> False | Some s \<Rightarrow> httpServer s)"

definition stopGhost :: "world \<Rightarrow> unit prog" where
  "stopGhost w =
     (\<lambda>st. if server_running st
           then statements [await w ServerStop, call w DeleteRequireCache,
                            call w UrlResetGenerators] st
           else ret () st)"

text \<open>
  \<open>settingsService.shutdown()\<close> and \<open>urlService.resetGenerators()\<close> are called without
  \<open>await\<close>.
\<close>

definition freshModeGhostStart :: "world \<Rightarrow> options \<Rightarrow> unit prog" where
  "freshModeGhostStart w options =
     statements
       [if forceStart options then call w (Debug ''Forced Restart Mode'')
        else call w (Debug ''Fresh Start Mode''),
        await w KnexMigratorReset,
        stopGhost w,
        call w SettingsShutdown,
        await w (KnexMigratorInit None),
        await w SettingsInit,
        call w UrlResetGenerators,
        bootGhost w options,
        run_if (frontend options) (await w UrlUtilsIsFinished)]"

subsection \<open>startGhost\<close>

definition startGhost :: "world \<Rightarrow> given_options \<Rightarrow> server option prog" where
  "startGhost w opts =
     and_then (call w (Debug ''Start Ghost'')) (\<lambda>_.
       let options = merge_options w opts in
       and_then (prepareContentFolder w options) (\<lambda>_.
       and_then (\<lambda>st. if server_running st \<and> \<not> forceStart options
                      then restartModeGhostStart w options st
                      else freshModeGhostStart w options st) (\<lambda>_.
       and_then (exposeFixtures w) (\<lambda>_ st.
       (Returned (ghostServer st), st)))))"

text \<open>Which of the two start paths a run went through, read off its trace.\<close>

definition ran_restart :: "event list \<Rightarrow> bool" where
  "ran_restart tr = (Call (Debug ''Reload Mode'') \<in> set tr)"

definition ran_fresh :: "event list \<Rightarrow> bool" where
  "ran_fresh tr =
     (Call (Debug ''Forced Restart Mode'') \<in> set tr \<or> Call (Debug ''Fresh Start Mode'') \<in> set tr)"

subsection \<open>The restart runbook\<close>

text \<open>
  The restart runbook as the specification words it: a fixed list, in which every awaited
  step settles before the next step starts, and where the front end only adds steps.
\<close>

definition restart_runbook :: "bool \<Rightarrow> event list" where
  "restart_runbook fe =
     [Call (Debug ''Reload Mode''),
      Await DbTeardown, Settled DbTeardown,
      Await (KnexMigratorInit (Some 2)), Settled (KnexMigratorInit (Some 2)),
      Call (Debug ''init done''),
      Await SettingsInit, Settled SettingsInit,
      Call (Debug ''settings done'')]
     @ (if fe then [Await RouteSettingsInit, Settled RouteSettingsInit,
                    Await ThemeInit, Settled ThemeInit,
                    Call (Debug ''frontend done'')] else [])
     @ [Call UrlUtilsReset, Call (UrlUtilsInit (\<not> fe))]
     @ (if fe then [Await UrlUtilsIsFinished, Settled UrlUtilsIsFinished] else [])
     @ [Call (Debug ''routes done''),
        Await CustomRedirectsInit, Settled CustomRedirectsInit,
        Call LimitsInit]"

text \<open>
  In a trace, \<open>x\<close> comes before \<open>y\<close>: if \<open>y\<close> is there at all, \<open>x\<close> is there before its
  first occurrence.
\<close>

definition comes_before :: "event \<Rightarrow> event \<Rightarrow> event list \<Rightarrow> bool" where
  "comes_before x y tr = (y \<notin> set tr \<or> x \<in> set (takeWhile (\<lambda>e. e \<noteq> y) tr))"

text \<open>
  Awaits are respected: an awaited call is followed at once by its settling, unless the run
  ended in it.
\<close>

fun awaits_respected :: "event list \<Rightarrow> bool" where
  "awaits_respected [] = True"
| "awaits_respected [e] = True"
| "awaits_respected (Await s # e # tr) = (e = Settled s \<and> awaits_respected tr)"
| "awaits_respected (e # e' # tr) = awaits_respected (e' # tr)"

subsection \<open>Reading a run\<close>

text \<open>The events a run added to the trace.\<close>

definition emitted :: "e2e_state \<Rightarrow> e2e_state \<Rightarrow> event list" where
  "emitted st st' = drop (length (trace st)) (trace st')"

text \<open>
  The error with which an event makes the running code throw, if it does: a call that
  throws; an awaited call that throws or whose promise rejects.
\<close>

fun thrown_by :: "world \<Rightarrow> event list \<Rightarrow> event \<Rightarrow> error option" where
  "thrown_by w tr (Call s) = (case reply w tr s of Throws e \<Rightarrow> Some e | _ \<Rightarrow> None)"
| "thrown_by w tr (Await s) =
     (case reply w tr s of Completes \<Rightarrow> None | Throws e \<Rightarrow> Some e | Rejects e \<Rightarrow> Some e)"
| "thrown_by w tr (Settled s) = None"

text \<open>The same, but for the \<open>toJSON\<close> calls, whose throws the \<open>.catch\<close> handles.\<close>

fun escapes :: "world \<Rightarrow> event list \<Rightarrow> event \<Rightarrow> error option" where
  "escapes w tr (Call (ToJSON key)) = None"
| "escapes w tr e = thrown_by w tr e"

text \<open>
  The first event of \<open>evs\<close>, made one after the other from the trace \<open>tr\<close>, that throws
  according to \<open>f\<close>: its position and its error.
\<close>

fun first_failure ::
  "(event list \<Rightarrow> event \<Rightarrow> error option) \<Rightarrow> event list \<Rightarrow> event list \<Rightarrow> (nat \<times> error) option"
  where
  "first_failure f tr [] = None"
| "first_failure f tr (e # es) =
     (case f tr e of
        Some err \<Rightarrow> Some (0, err)
      | None \<Rightarrow> map_option (\<lambda>(i, err). (Suc i, err)) (first_failure f (tr @ [e]) es))"

fun thrown_error :: "'a completion \<Rightarrow> error option" where
  "thrown_error (Thrown e) = Some e"
| "thrown_error c = None"

fun exit_code :: "'a completion \<Rightarrow> nat option" where
  "exit_code (Exited n) = Some n"
| "exit_code c = None"

text \<open>
  An error propagates: if one of the events throws, it is the last event of the run and the
  run throws its error; and the run throws only so.
\<close>

definition propagates ::
  "(event list \<Rightarrow> event \<Rightarrow> error option) \<Rightarrow> event list \<Rightarrow> event list \<Rightarrow> 'a completion \<Rightarrow> bool"
  where
  "propagates f tr new c =
     (case first_failure f tr new of
        None \<Rightarrow> thrown_error c = None
      | Some (i, e) \<Rightarrow> Suc i = length new \<and> thrown_error c = Some e)"

text \<open>
  For the proofs: a piece of code only adds to the trace, the events it adds satisfy \<open>P\<close>,
  errors propagate through it, and it does not end the process.
\<close>

definition orderly :: "world \<Rightarrow> (event \<Rightarrow> bool) \<Rightarrow> 'a prog \<Rightarrow> bool" where
  "orderly w P m =
     (\<forall>st. case m st of
             (c, st') \<Rightarrow>
               trace st' = trace st @ emitted st st'
               \<and> list_all P (emitted st st')
               \<and> propagates (thrown_by w) (trace st) (emitted st st') c
               \<and> exit_code c = None)"

definition keeps_server :: "'a prog \<Rightarrow> bool" where
  "keeps_server m = (\<forall>st. ghostServer (snd (m st)) = ghostServer st)"

text \<open>The events that only \<open>exposeFixtures\<close> makes, and those of its \<open>.catch\<close> callback.\<close>

fun fixture_event :: "event \<Rightarrow> bool" where
  "fixture_event (Call (FindAll m)) = True"
| "fixture_event (Call (ToJSON k)) = True"
| "fixture_event (Call (ConsoleError e)) = True"
| "fixture_event (Call (ProcessExit n)) = True"
| "fixture_event e = False"

fun handler_event :: "event \<Rightarrow> bool" where
  "handler_event (Call (ConsoleError e)) = True"
| "handler_event (Call (ProcessExit n)) = True"
| "handler_event e = False"

fun json_call :: "event \<Rightarrow> bool" where
  "json_call (Call (ToJSON k)) = True"
| "json_call e = False"

fun start_marker :: "event \<Rightarrow> bool" where
  "start_marker (Call (Debug m)) =
     (m = ''Reload Mode'' \<or> m = ''Forced Restart Mode'' \<or> m = ''Fresh Start Mode'')"
| "start_marker e = False"

text \<open>For the proofs: a straight-line script of calls, awaited or not, and its events.\<close>

datatype action = Plainly step | Awaiting step

fun perform :: "world \<Rightarrow> action \<Rightarrow> unit prog" where
  "perform w (Plainly s) = call w s"
| "perform w (Awaiting s) = await w s"

fun events_of :: "action \<Rightarrow> event list" where
  "events_of (Plainly s) = [Call s]"
| "events_of (Awaiting s) = [Await s, Settled s]"

definition restart_script :: "bool \<Rightarrow> action list" where
  "restart_script fe =
     [Plainly (Debug ''Reload Mode''), Awaiting DbTeardown, Awaiting (KnexMigratorInit (Some 2)),
      Plainly (Debug ''init done''), Awaiting SettingsInit, Plainly (Debug ''settings done'')]
     @ (if fe then [Awaiting RouteSettingsInit, Awaiting ThemeInit,
                    Plainly (Debug ''frontend done'')] else [])
     @ [Plainly UrlUtilsReset, Plainly (UrlUtilsInit (\<not> fe))]
     @ (if fe then [Awaiting UrlUtilsIsFinished] else [])
     @ [Plainly (Debug ''routes done''), Awaiting CustomRedirectsInit, Plainly LimitsInit]"


section \<open>Example inputs\<close>

definition example_production :: environment where
  "example_production = \<lparr>enableDeveloperExperiments = JUndefined, NODE_ENV = ''production''\<rparr>"

definition example_testing :: environment where
  "example_testing = \<lparr>enableDeveloperExperiments = JUndefined, NODE_ENV = ''testing''\<rparr>"

definition example_labs_state :: labs_state where
  "example_labs_state =
     \<lparr>heap = [[(''customThemeSettings'', JBool False), (''oauthLogin'', JBool True),
               (''foo'', JBool True), (''activitypub'', JStr ''yes'')]],
      labs_setting = Some 0,
      members_signup_access = JStr ''all''\<rparr>"

definition example_boolean_state :: labs_state where
  "example_boolean_state =
     \<lparr>heap = [[(''activitypub'', JBool False), (''oauthLogin'', JBool True)]],
      labs_setting = Some 0,
      members_signup_access = JStr ''none''\<rparr>"

definition example_helper_options :: helper_options where
  "example_helper_options =
     \<lparr>flagKey = ''oauthLogin'', flagName = JStr ''OAuth'', helperName = JStr ''oauth'',
      errorMessage = JUndefined, errorContext = JStr ''Enable {flagName}'',
      errorHelp = JUndefined, helpUrl = JStr ''https://ghost.org/docs/'', async = JBool True\<rparr>"

definition example_tpl :: tpl where
  "example_tpl template data = (case template of JStr s \<Rightarrow> s | _ \<Rightarrow> [])"

definition example_world :: world where
  "example_world =
     \<lparr>behaves = (\<lambda>tr s. Completes),
      boot_result = GhostServer 1 True,
      found = (\<lambda>m. [m]),
      settle_time = (\<lambda>m. 0),
      toJSON = (\<lambda>c. c),
      tmp_content_folder = ''/tmp/uuid/ghost-test''\<rparr>"

definition example_world_disk_full :: world where
  "example_world_disk_full =
     example_world\<lparr>behaves := (\<lambda>tr s. case s of EnsureDirSync p \<Rightarrow> Throws (Error ''ENOSPC'')
                                              | _ \<Rightarrow> Completes)\<rparr>"

definition example_world_settings_down :: world where
  "example_world_settings_down =
     example_world\<lparr>behaves := (\<lambda>tr s. if s = SettingsInit then Rejects (Error ''settings down'')
                                        else Completes)\<rparr>"

definition example_world_limits_reject :: world where
  "example_world_limits_reject =
     example_world\<lparr>behaves := (\<lambda>tr s. if s = LimitsInit then Rejects (Error ''no limits'')
                                        else Completes)\<rparr>"

definition example_world_tags_reject :: world where
  "example_world_tags_reject =
     example_world\<lparr>behaves := (\<lambda>tr s. if s = FindAll ''Tag'' then Rejects (Error ''no tags'')
                                        else Completes)\<rparr>"

definition example_world_bad_row :: world where
  "example_world_bad_row =
     example_world\<lparr>behaves := (\<lambda>tr s. if s = ToJSON ''tags'' then Throws (Error ''bad row'')
                                        else Completes)\<rparr>"

definition example_no_options :: given_options where
  "example_no_options =
     \<lparr>given_backend = None, given_frontend = None, given_redirectsFile = None,
      given_redirectsFileExt = None, given_forceStart = None, given_copyThemes = None,
      given_copySettings = None, given_contentFolder = None, given_subdir = None\<rparr>"

definition example_running :: e2e_state where
  "example_running = \<lparr>ghostServer = Some (GhostServer 0 True), existingData = [], trace = []\<rparr>"

definition example_stopped :: e2e_state where
  "example_stopped = \<lparr>ghostServer = None, existingData = [], trace = []\<rparr>"


section \<open>Properties of the labs module\<close>

subsection \<open>The object built by getAll\<close>

lemma cloneDeep_id: "cloneDeep v = v"
  by (induction v rule: cloneDeep.induct) (auto intro: map_idI)

lemma cloneDeep_object_id: "cloneDeep_object obj = obj"
  by (auto simp: cloneDeep_object_def cloneDeep_id intro: map_idI)

lemma heap_at_append_new: "heap_at (h @ [obj]) (length h) = obj"
  by (simp add: heap_at_def)

lemma heap_modify_new: "heap_modify (length h) f (h @ [obj]) = h @ [f obj]"
  by (simp add: heap_modify_def)

lemma hide_alpha_new:
  "hide_alpha env (length h) k (h @ [obj]) = h @ [hide_alpha_object env k obj]"
  by (simp add: hide_alpha_def hide_alpha_object_def heap_at_append_new heap_modify_new)

lemma fold_hide_alpha_new:
  "fold (hide_alpha env (length h)) ks (h @ [obj]) = h @ [fold (hide_alpha_object env) ks obj]"
  by (induction ks arbitrary: obj) (simp_all add: hide_alpha_new)

lemma fold_force_ga_new:
  "fold (force_ga (length h)) ks (h @ [obj]) = h @ [fold (\<lambda>k. prop_set k (JBool True)) ks obj]"
  by (induction ks arbitrary: obj) (simp_all add: force_ga_def heap_modify_new)

lemma getAll_eq:
  "getAll env st =
     (length (heap st),
      st\<lparr>heap := heap st @ [labs_object env (members_signup_access st) (stored_labs st)]\<rparr>)"
  by (simp add: getAll_def heap_alloc_def stored_labs_def labs_object_def cloneDeep_object_id
      fold_hide_alpha_new fold_force_ga_new heap_modify_new split: option.split)

lemma getAll_object_eq:
  "getAll_object env st = labs_object env (members_signup_access st) (stored_labs st)"
  by (simp add: getAll_object_def getAll_eq heap_at_append_new)

lemma map_of_prop_set: "map_of (prop_set k v obj) = (map_of obj)(k \<mapsto> v)"
  by (simp add: prop_set_def update_conv')

lemma map_of_prop_delete: "map_of (prop_delete k obj) = (map_of obj)(k := None)"
  by (simp add: prop_delete_def delete_conv')

lemma map_of_hide_alpha_object:
  "map_of (hide_alpha_object env a obj) k =
     (if k = a \<and> truthy (prop_get obj a) \<and> \<not> developer_experiments env then None
      else map_of obj k)"
  by (simp add: hide_alpha_object_def map_of_prop_delete)

lemma prop_get_hide_alpha_object:
  "prop_get (hide_alpha_object env a obj) k =
     (if k = a \<and> truthy (prop_get obj a) \<and> \<not> developer_experiments env then JUndefined
      else prop_get obj k)"
  by (simp add: prop_get_def map_of_hide_alpha_object)

lemma map_of_fold_hide:
  "map_of (fold (hide_alpha_object env) ks obj) k =
     (if k \<in> set ks \<and> truthy (prop_get obj k) \<and> \<not> developer_experiments env then None
      else map_of obj k)"
proof (induction ks arbitrary: obj)
  case Nil
  show ?case by simp
next
  case (Cons a ks)
  have "map_of (fold (hide_alpha_object env) (a # ks) obj) k =
        map_of (fold (hide_alpha_object env) ks (hide_alpha_object env a obj)) k"
    by simp
  also have "\<dots> =
     (if k \<in> set ks \<and> truthy (prop_get (hide_alpha_object env a obj) k)
          \<and> \<not> developer_experiments env then None
      else map_of (hide_alpha_object env a obj) k)"
    by (rule Cons.IH)
  also have "\<dots> =
     (if k \<in> set (a # ks) \<and> truthy (prop_get obj k) \<and> \<not> developer_experiments env then None
      else map_of obj k)"
    by (auto simp: map_of_hide_alpha_object prop_get_hide_alpha_object)
  finally show ?case .
qed

lemma map_of_fold_set:
  "map_of (fold (\<lambda>k. prop_set k v) ks obj) k = (if k \<in> set ks then Some v else map_of obj k)"
  by (induction ks arbitrary: obj) (auto simp: map_of_prop_set)

lemma map_of_labs_object:
  "map_of (labs_object env access obj) k =
     (if k = ''members'' then Some (JBool (access \<noteq> JStr ''none''))
      else if k \<in> set GA_FEATURES then Some (JBool True)
      else if k \<in> set ALPHA_FEATURES \<and> truthy (prop_get obj k) \<and> \<not> developer_experiments env
        then None
      else map_of obj k)"
  by (simp add: labs_object_def map_of_prop_set map_of_fold_set map_of_fold_hide)

lemma keys_eq_dom: "set (object_keys obj) = dom (map_of obj)"
  by (simp add: object_keys_def dom_map_of_conv_image_fst)

lemma mem_keys_iff: "k \<in> set (object_keys obj) \<longleftrightarrow> map_of obj k \<noteq> None"
  by (auto simp: keys_eq_dom)

lemma isSet_eq: "isSet env st flag = (prop_get (getAll_object env st) flag = JBool True)"
  by (auto simp: isSet_def Let_def)

lemma members_not_flag:
  "''members'' \<notin> set GA_FEATURES" "''members'' \<notin> set ALPHA_FEATURES"
  "''members'' \<notin> set BETA_FEATURES"
  by (simp_all add: GA_FEATURES_def ALPHA_FEATURES_def BETA_FEATURES_def)

lemma ga_not_alpha: "k \<in> set GA_FEATURES \<Longrightarrow> k \<notin> set ALPHA_FEATURES"
  by (auto simp: GA_FEATURES_def ALPHA_FEATURES_def)


subsection \<open>The flag tiers in the result of getAll\<close>

text \<open>
  Claim C8. A flag of \<open>GA_FEATURES\<close> is always on: whatever the cache holds for the labs
  setting (nothing, an object without the key, an object storing \<open>false\<close> for it), the
  object \<open>getAll\<close> returns maps the key to \<open>true\<close>, and \<open>isSet\<close> returns \<open>true\<close> for it.
\<close>

theorem ga_flags_always_enabled:
  "k \<in> set GA_FEATURES \<Longrightarrow>
     prop_get (getAll_object env st) k = JBool True \<and> isSet env st k"
  using members_not_flag(1)
  by (auto simp: isSet_eq getAll_object_eq prop_get_def map_of_labs_object)

text \<open>
  Claim C2. A key of \<open>ALPHA_FEATURES\<close> whose stored value is truthy is absent from the
  object \<open>getAll\<close> returns when \<open>enableDeveloperExperiments\<close> is falsy and \<open>NODE_ENV\<close>
  does not start with \<open>test\<close>; when either of the two holds it is present, with the
  stored value.
\<close>

theorem alpha_visibility:
  assumes "k \<in> set ALPHA_FEATURES" and "truthy (prop_get (stored_labs st) k)"
  shows "(\<not> truthy (enableDeveloperExperiments env) \<and> \<not> prefix ''test'' (NODE_ENV env)
            \<longrightarrow> k \<notin> set (object_keys (getAll_object env st)))
       \<and> (truthy (enableDeveloperExperiments env) \<or> prefix ''test'' (NODE_ENV env)
            \<longrightarrow> k \<in> set (object_keys (getAll_object env st))
                \<and> prop_get (getAll_object env st) k = prop_get (stored_labs st) k)"
proof -
  from assms(1) have nm: "k \<noteq> ''members''" and ng: "k \<notin> set GA_FEATURES"
    using members_not_flag(2) ga_not_alpha by auto
  from assms(2) have stored: "map_of (stored_labs st) k \<noteq> None"
    by (cases "map_of (stored_labs st) k") (simp_all add: prop_get_def)
  show ?thesis
    using assms nm ng stored
    by (simp add: mem_keys_iff getAll_object_eq map_of_labs_object prop_get_def
        developer_experiments_def)
qed

text \<open>
  Claim C1, amended. \<open>getAll\<close> applies no allowlist: the keys of its result are the stored
  keys, less the alpha keys it hides, together with the GA keys and \<open>members\<close>. A stored
  key outside \<open>ALPHA_FEATURES\<close> (so every key outside the allowlist) is always a key of
  the result. Hence every key of the result other than \<open>members\<close> is in
  \<open>GA_FEATURES @ BETA_FEATURES @ ALPHA_FEATURES\<close> provided every stored key is.
\<close>

theorem getAll_keys_unfiltered:
  "set (object_keys (getAll_object env st)) =
     (set (object_keys (stored_labs st))
        - {k \<in> set ALPHA_FEATURES. truthy (prop_get (stored_labs st) k)
                                    \<and> \<not> developer_experiments env})
     \<union> set GA_FEATURES \<union> {''members''}
   \<and> (\<forall>k \<in> set (object_keys (stored_labs st)). k \<notin> set ALPHA_FEATURES \<longrightarrow>
         k \<in> set (object_keys (getAll_object env st)))
   \<and> (set (object_keys (stored_labs st))
         \<subseteq> set (GA_FEATURES @ BETA_FEATURES @ ALPHA_FEATURES) \<longrightarrow>
       (\<forall>k \<in> set (object_keys (getAll_object env st)).
          k = ''members'' \<or> k \<in> set (GA_FEATURES @ BETA_FEATURES @ ALPHA_FEATURES)))"
proof -
  have eq: "set (object_keys (getAll_object env st)) =
     (set (object_keys (stored_labs st))
        - {k \<in> set ALPHA_FEATURES. truthy (prop_get (stored_labs st) k)
                                    \<and> \<not> developer_experiments env})
     \<union> set GA_FEATURES \<union> {''members''}"
    by (auto simp: mem_keys_iff getAll_object_eq map_of_labs_object prop_get_def
        split: if_splits option.splits)
  show ?thesis
    unfolding eq by auto
qed

text \<open>
  Claim C7, amended. \<open>getAll\<close> converts nothing: the values it injects for the GA keys and
  for \<open>members\<close> are booleans, and every other property of the result has exactly its
  stored value. So every value of the result is a boolean provided every stored value is.
\<close>

theorem getAll_values_passed_through:
  "(\<forall>k \<in> set GA_FEATURES \<union> {''members''}. is_boolean (prop_get (getAll_object env st) k))
   \<and> (\<forall>k \<in> set (object_keys (getAll_object env st)).
         k \<notin> set GA_FEATURES \<union> {''members''} \<longrightarrow>
         prop_get (getAll_object env st) k = prop_get (stored_labs st) k)
   \<and> ((\<forall>k \<in> set (object_keys (stored_labs st)). is_boolean (prop_get (stored_labs st) k)) \<longrightarrow>
       (\<forall>k \<in> set (object_keys (getAll_object env st)).
          is_boolean (prop_get (getAll_object env st) k)))"
proof -
  have a: "\<forall>k \<in> set GA_FEATURES \<union> {''members''}. is_boolean (prop_get (getAll_object env st) k)"
    by (auto simp: getAll_object_eq prop_get_def map_of_labs_object is_boolean_def)
  have b: "\<forall>k \<in> set (object_keys (getAll_object env st)).
         k \<notin> set GA_FEATURES \<union> {''members''} \<longrightarrow>
         prop_get (getAll_object env st) k = prop_get (stored_labs st) k"
    by (auto simp: mem_keys_iff getAll_object_eq prop_get_def map_of_labs_object
        split: if_splits)
  have c: "(\<forall>k \<in> set (object_keys (stored_labs st)). is_boolean (prop_get (stored_labs st) k)) \<longrightarrow>
       (\<forall>k \<in> set (object_keys (getAll_object env st)).
          is_boolean (prop_get (getAll_object env st) k))"
  proof (intro impI ballI)
    fix k
    assume st_bool: "\<forall>k \<in> set (object_keys (stored_labs st)). is_boolean (prop_get (stored_labs st) k)"
      and k: "k \<in> set (object_keys (getAll_object env st))"
    show "is_boolean (prop_get (getAll_object env st) k)"
    proof (cases "k \<in> set GA_FEATURES \<union> {''members''}")
      case True
      with a show ?thesis by blast
    next
      case False
      with b k have eq: "prop_get (getAll_object env st) k = prop_get (stored_labs st) k"
        by blast
      from k False have "k \<in> set (object_keys (stored_labs st))"
        by (auto simp: mem_keys_iff getAll_object_eq map_of_labs_object split: if_splits)
      with st_bool eq show ?thesis by simp
    qed
  qed
  from a b c show ?thesis by blast
qed


subsection \<open>The settings cache is not written\<close>

text \<open>
  Claim C9. \<open>getAll\<close> writes to a copy only: the object it returns sits at a new address,
  every object allocated before the call (the one the cache holds among them) is the same
  after it, and the cache entries themselves are the same.
\<close>

theorem getAll_leaves_cache_untouched:
  assumes "getAll env st = (labs, st')"
  shows "labs = length (heap st)
       \<and> take (length (heap st)) (heap st') = heap st
       \<and> (\<forall>a < length (heap st). heap_at (heap st') a = heap_at (heap st) a)
       \<and> labs_setting st' = labs_setting st
       \<and> members_signup_access st' = members_signup_access st"
  using assms by (auto simp: getAll_eq heap_at_def nth_append)


subsection \<open>The example inputs evaluated\<close>

lemma example_stored:
  "stored_labs example_labs_state =
     [(''customThemeSettings'', JBool False), (''oauthLogin'', JBool True),
      (''foo'', JBool True), (''activitypub'', JStr ''yes'')]"
  by (simp add: stored_labs_def example_labs_state_def heap_at_def)

lemma example_developer_experiments:
  "\<not> developer_experiments example_production" "developer_experiments example_testing"
  by (simp_all add: developer_experiments_def example_production_def example_testing_def)

text \<open>
  The stored object of the example has \<open>customThemeSettings: false\<close>.
\<close>

theorem ga_flags_always_enabled_witness:
  "''customThemeSettings'' \<in> set GA_FEATURES
   \<and> prop_get (stored_labs example_labs_state) ''customThemeSettings'' = JBool False
   \<and> prop_get (getAll_object example_production example_labs_state) ''customThemeSettings''
       = JBool True
   \<and> isSet example_production example_labs_state ''customThemeSettings''"
  using ga_flags_always_enabled [of "''customThemeSettings''" example_production example_labs_state]
  by (simp add: GA_FEATURES_def example_stored prop_get_def)

text \<open>
  \<open>oauthLogin: true\<close> is hidden in production and visible under \<open>NODE_ENV=testing\<close>.
\<close>

theorem alpha_visibility_witness:
  "''oauthLogin'' \<in> set ALPHA_FEATURES
   \<and> truthy (prop_get (stored_labs example_labs_state) ''oauthLogin'')
   \<and> ''oauthLogin'' \<notin> set (object_keys (getAll_object example_production example_labs_state))
   \<and> ''oauthLogin'' \<in> set (object_keys (getAll_object example_testing example_labs_state))
   \<and> prop_get (getAll_object example_testing example_labs_state) ''oauthLogin'' = JBool True"
  using alpha_visibility [of "''oauthLogin''" example_labs_state example_production]
    alpha_visibility [of "''oauthLogin''" example_labs_state example_testing]
  by (simp add: ALPHA_FEATURES_def example_stored prop_get_def example_production_def
      example_testing_def)

text \<open>
  Against C1 as it is stated, which reads \<open>getAll\<close> as a filter by the allowlist: the
  stored key \<open>foo\<close>, which is in none of the three tiers, is a key of the result.
\<close>

theorem getAll_allowlist_counterexample:
  "''foo'' \<in> set (object_keys (getAll_object example_production example_labs_state))
   \<and> ''foo'' \<noteq> ''members''
   \<and> ''foo'' \<notin> set (GA_FEATURES @ BETA_FEATURES @ ALPHA_FEATURES)"
  by (simp add: mem_keys_iff getAll_object_eq map_of_labs_object example_stored
      GA_FEATURES_def BETA_FEATURES_def ALPHA_FEATURES_def)

text \<open>
  The stray key \<open>foo\<close> passes through; a stored object with allowlisted keys only gives a
  result with allowlisted keys and \<open>members\<close> only.
\<close>

theorem getAll_keys_unfiltered_witness:
  "''foo'' \<in> set (object_keys (stored_labs example_labs_state))
   \<and> ''foo'' \<notin> set ALPHA_FEATURES
   \<and> ''foo'' \<in> set (object_keys (getAll_object example_production example_labs_state))
   \<and> set (object_keys (stored_labs example_boolean_state))
        \<subseteq> set (GA_FEATURES @ BETA_FEATURES @ ALPHA_FEATURES)
   \<and> list_all (\<lambda>k. k = ''members'' \<or> k \<in> set (GA_FEATURES @ BETA_FEATURES @ ALPHA_FEATURES))
         (object_keys (getAll_object example_production example_boolean_state))"
proof -
  note t1 = getAll_keys_unfiltered [of example_production example_labs_state]
  note t2 = getAll_keys_unfiltered [of example_production example_boolean_state]
  have fs: "''foo'' \<in> set (object_keys (stored_labs example_labs_state))"
    by (simp add: example_stored object_keys_def)
  have fa: "''foo'' \<notin> set ALPHA_FEATURES"
    by (simp add: ALPHA_FEATURES_def)
  from t1 have b: "\<forall>k \<in> set (object_keys (stored_labs example_labs_state)).
      k \<notin> set ALPHA_FEATURES \<longrightarrow>
      k \<in> set (object_keys (getAll_object example_production example_labs_state))"
    by (rule conjunct1 [OF conjunct2])
  from bspec [OF b fs] fa
  have fr: "''foo'' \<in> set (object_keys (getAll_object example_production example_labs_state))"
    by (rule mp)
  have sub: "set (object_keys (stored_labs example_boolean_state))
        \<subseteq> set (GA_FEATURES @ BETA_FEATURES @ ALPHA_FEATURES)"
    by (simp add: stored_labs_def example_boolean_state_def heap_at_def object_keys_def
        BETA_FEATURES_def ALPHA_FEATURES_def)
  from t2 have c: "set (object_keys (stored_labs example_boolean_state))
        \<subseteq> set (GA_FEATURES @ BETA_FEATURES @ ALPHA_FEATURES) \<longrightarrow>
     (\<forall>k \<in> set (object_keys (getAll_object example_production example_boolean_state)).
         k = ''members'' \<or> k \<in> set (GA_FEATURES @ BETA_FEATURES @ ALPHA_FEATURES))"
    by (rule conjunct2 [OF conjunct2])
  from c sub have r: "\<forall>k \<in> set (object_keys (getAll_object example_production example_boolean_state)).
         k = ''members'' \<or> k \<in> set (GA_FEATURES @ BETA_FEATURES @ ALPHA_FEATURES)"
    by (rule mp)
  from r have "list_all (\<lambda>k. k = ''members'' \<or> k \<in> set (GA_FEATURES @ BETA_FEATURES @ ALPHA_FEATURES))
         (object_keys (getAll_object example_production example_boolean_state))"
    by (simp only: list_all_iff)
  with fs fa fr sub show ?thesis
    by (intro conjI)
qed

text \<open>
  Against C7 as it is stated, by which every value of the result is a boolean: the beta key
  \<open>activitypub\<close> stored as the string \<open>"yes"\<close> comes back as that string.
\<close>

theorem getAll_boolean_counterexample:
  "''activitypub'' \<in> set BETA_FEATURES
   \<and> ''activitypub'' \<in> set (object_keys (getAll_object example_production example_labs_state))
   \<and> \<not> is_boolean (prop_get (getAll_object example_production example_labs_state) ''activitypub'')"
  by (simp add: mem_keys_iff getAll_object_eq map_of_labs_object example_stored prop_get_def
      is_boolean_def GA_FEATURES_def BETA_FEATURES_def ALPHA_FEATURES_def)

text \<open>
  \<open>members\<close> is a boolean, \<open>foo\<close> keeps its stored value, and a stored object of booleans
  gives a result of booleans.
\<close>

theorem getAll_values_passed_through_witness:
  "is_boolean (prop_get (getAll_object example_production example_labs_state) ''members'')
   \<and> ''foo'' \<in> set (object_keys (getAll_object example_production example_labs_state))
   \<and> prop_get (getAll_object example_production example_labs_state) ''foo'' = JBool True
   \<and> list_all (\<lambda>k. is_boolean (prop_get (getAll_object example_production example_boolean_state) k))
         (object_keys (getAll_object example_production example_boolean_state))"
proof -
  note t1 = getAll_values_passed_through [of example_production example_labs_state]
  note t2 = getAll_values_passed_through [of example_production example_boolean_state]
  from t1 have a: "\<forall>k \<in> set GA_FEATURES \<union> {''members''}.
      is_boolean (prop_get (getAll_object example_production example_labs_state) k)"
    by (rule conjunct1)
  have 1: "is_boolean (prop_get (getAll_object example_production example_labs_state) ''members'')"
    by (rule bspec [OF a]) simp
  have fk: "''foo'' \<in> set (object_keys (getAll_object example_production example_labs_state))"
    by (simp add: mem_keys_iff getAll_object_eq map_of_labs_object example_stored
        GA_FEATURES_def ALPHA_FEATURES_def)
  have nf: "''foo'' \<notin> set GA_FEATURES \<union> {''members''}"
    by (simp add: GA_FEATURES_def)
  from t1 have b: "\<forall>k \<in> set (object_keys (getAll_object example_production example_labs_state)).
         k \<notin> set GA_FEATURES \<union> {''members''} \<longrightarrow>
         prop_get (getAll_object example_production example_labs_state) k
           = prop_get (stored_labs example_labs_state) k"
    by (rule conjunct1 [OF conjunct2])
  from bspec [OF b fk] nf
  have "prop_get (getAll_object example_production example_labs_state) ''foo''
      = prop_get (stored_labs example_labs_state) ''foo''"
    by (rule mp)
  then have 2: "prop_get (getAll_object example_production example_labs_state) ''foo'' = JBool True"
    by (simp add: example_stored prop_get_def)
  have sb: "\<forall>k \<in> set (object_keys (stored_labs example_boolean_state)).
          is_boolean (prop_get (stored_labs example_boolean_state) k)"
    by (simp add: stored_labs_def example_boolean_state_def heap_at_def object_keys_def
        prop_get_def is_boolean_def)
  from t2 have c: "(\<forall>k \<in> set (object_keys (stored_labs example_boolean_state)).
          is_boolean (prop_get (stored_labs example_boolean_state) k)) \<longrightarrow>
       (\<forall>k \<in> set (object_keys (getAll_object example_production example_boolean_state)).
         is_boolean (prop_get (getAll_object example_production example_boolean_state) k))"
    by (rule conjunct2 [OF conjunct2])
  from c sb have 3: "\<forall>k \<in> set (object_keys (getAll_object example_production example_boolean_state)).
         is_boolean (prop_get (getAll_object example_production example_boolean_state) k)"
    by (rule mp)
  from 3 have "list_all (\<lambda>k. is_boolean (prop_get (getAll_object example_production example_boolean_state) k))
         (object_keys (getAll_object example_production example_boolean_state))"
    by (simp only: list_all_iff)
  with 1 fk 2 show ?thesis
    by (intro conjI)
qed

lemma example_labs_object:
  "labs_object example_production (JStr ''all'')
      [(''customThemeSettings'', JBool False), (''oauthLogin'', JBool True),
       (''foo'', JBool True), (''activitypub'', JStr ''yes'')] =
   [(''customThemeSettings'', JBool True), (''foo'', JBool True),
    (''activitypub'', JStr ''yes''), (''members'', JBool True)]"
  by code_simp

lemma example_access: "members_signup_access example_labs_state = JStr ''all''"
  by (simp add: example_labs_state_def)

lemma example_heap:
  "heap example_labs_state =
     [[(''customThemeSettings'', JBool False), (''oauthLogin'', JBool True),
       (''foo'', JBool True), (''activitypub'', JStr ''yes'')]]"
  by (simp add: example_labs_state_def)

lemma example_getAll:
  "getAll example_production example_labs_state =
     (1, example_labs_state\<lparr>heap := heap example_labs_state
           @ [[(''customThemeSettings'', JBool True), (''foo'', JBool True),
               (''activitypub'', JStr ''yes''), (''members'', JBool True)]]\<rparr>)"
proof -
  have len: "length (heap example_labs_state) = 1"
    by (simp add: example_heap)
  show ?thesis
    unfolding getAll_eq example_stored example_access example_labs_object len
    by (rule refl)
qed

text \<open>
  In production the copy at address 1 has lost \<open>oauthLogin\<close>; the cached object at
  address 0 still has it.
\<close>

theorem getAll_leaves_cache_untouched_witness:
  "fst (getAll example_production example_labs_state) = 1
   \<and> heap_at (heap (snd (getAll example_production example_labs_state))) 0
       = heap_at (heap example_labs_state) 0
   \<and> prop_get (heap_at (heap (snd (getAll example_production example_labs_state))) 0)
       ''oauthLogin'' = JBool True
   \<and> prop_get (heap_at (heap (snd (getAll example_production example_labs_state))) 1)
       ''oauthLogin'' = JUndefined"
proof -
  have len: "length (heap example_labs_state) = 1"
    by (simp add: example_heap)
  have h0: "heap_at (heap example_labs_state) 0 =
     [(''customThemeSettings'', JBool False), (''oauthLogin'', JBool True),
      (''foo'', JBool True), (''activitypub'', JStr ''yes'')]"
    by (simp add: example_heap heap_at_def)
  from getAll_leaves_cache_untouched [OF example_getAll]
  have "\<forall>a < length (heap example_labs_state).
     heap_at (heap (example_labs_state\<lparr>heap := heap example_labs_state
           @ [[(''customThemeSettings'', JBool True), (''foo'', JBool True),
               (''activitypub'', JStr ''yes''), (''members'', JBool True)]]\<rparr>)) a
       = heap_at (heap example_labs_state) a"
    by (rule conjunct1 [OF conjunct2 [OF conjunct2]])
  then have same: "heap_at (heap (snd (getAll example_production example_labs_state))) 0
       = heap_at (heap example_labs_state) 0"
    by (simp add: example_getAll len)
  have new: "heap_at (heap (snd (getAll example_production example_labs_state))) 1 =
      [(''customThemeSettings'', JBool True), (''foo'', JBool True),
       (''activitypub'', JStr ''yes''), (''members'', JBool True)]"
    by (simp add: example_getAll heap_at_def example_heap)
  show ?thesis
    unfolding new same h0 by (simp add: example_getAll prop_get_def)
qed


subsection \<open>The helper and the middleware\<close>

text \<open>
  Claim C3. \<open>enabledHelper\<close> returns \<open>callback()\<close> exactly when \<open>isSet(options.flagKey)\<close>
  is true, and logs nothing then. Otherwise it logs one \<open>DisabledFeatureError\<close> whose
  message, explanation and help are \<open>tpl\<close> applied to the overriding template when that is
  truthy and to the default template otherwise, and it returns the \<open>SafeString\<close>
  \<open><script>console.error("message explanation help");</script>\<close> made of these three, inside
  a resolved promise if and only if \<open>options.async\<close> is truthy.
\<close>

theorem enabledHelper_callback_or_error:
  "(isSet env st (flagKey options) \<longrightarrow>
      enabledHelper tpl env st options callback = ([], FromCallback (callback ())))
   \<and> (\<not> isSet env st (flagKey options) \<longrightarrow>
        (let m = tpl (if truthy (errorMessage options) then errorMessage options
                      else JStr (''The '' @ [CHR 0x5C] @ ''{'' @ [CHR 0x5C] @ ''{{helperName}''
                                   @ [CHR 0x5C] @ ''}'' @ [CHR 0x5C]
                                   @ ''} helper is not available.''))
                   [(''helperName'', helperName options)];
             c = tpl (if truthy (errorContext options) then errorContext options
                      else JStr (''The {flagName} flag must be enabled in labs if you wish to ''
                                   @ ''use the '' @ [CHR 0x5C] @ ''{'' @ [CHR 0x5C]
                                   @ ''{{helperName}'' @ [CHR 0x5C] @ ''}'' @ [CHR 0x5C]
                                   @ ''} helper.''))
                   [(''helperName'', helperName options), (''flagName'', flagName options)];
             h = tpl (if truthy (errorHelp options) then errorHelp options
                      else JStr ''See {url}'')
                   [(''url'', helpUrl options)];
             s = SafeString (''<script>console.error('' @ [CHR 0x22] @ m @ '' '' @ c @ '' '' @ h
                               @ [CHR 0x22] @ '');</script>'')
         in enabledHelper tpl env st options callback
              = ([DisabledFeatureError \<lparr>err_message = m, err_context = c, err_help = h\<rparr>],
                 if truthy (async options) then ResolvedPromise s else Plain s)))
   \<and> ((\<exists>r. snd (enabledHelper tpl env st options callback) = FromCallback r)
        \<longleftrightarrow> isSet env st (flagKey options))"
  by (simp add: enabledHelper_def errDetails_def errString_def js_or_def Let_def
      messages_errorMessage_def messages_errorContext_def messages_errorHelp_def
      backslash_def double_quote_def)

lemma example_isSet:
  "\<not> isSet example_production example_labs_state ''oauthLogin''"
  "isSet example_testing example_labs_state ''oauthLogin''"
  by (simp_all add: isSet_eq getAll_object_eq prop_get_def map_of_labs_object example_stored
      example_developer_experiments GA_FEATURES_def ALPHA_FEATURES_def)

text \<open>
  With the flag on, the callback's result; with the flag off and \<open>async: true\<close>, a
  resolved promise; the overridden second template is used, the other two are defaults.
\<close>

theorem enabledHelper_callback_or_error_witness:
  "enabledHelper example_tpl example_testing example_labs_state example_helper_options
       (\<lambda>_. ''rendered'') = ([], FromCallback ''rendered'')
   \<and> enabledHelper example_tpl example_production example_labs_state example_helper_options
       (\<lambda>_. ''rendered'')
      = ([DisabledFeatureError
            \<lparr>err_message = ''The '' @ [CHR 0x5C] @ ''{'' @ [CHR 0x5C] @ ''{{helperName}''
                             @ [CHR 0x5C] @ ''}'' @ [CHR 0x5C] @ ''} helper is not available.'',
             err_context = ''Enable {flagName}'',
             err_help = ''See {url}''\<rparr>],
         ResolvedPromise (SafeString
           (''<script>console.error('' @ [CHR 0x22]
              @ ''The '' @ [CHR 0x5C] @ ''{'' @ [CHR 0x5C] @ ''{{helperName}''
              @ [CHR 0x5C] @ ''}'' @ [CHR 0x5C] @ ''} helper is not available.''
              @ '' Enable {flagName} See {url}'' @ [CHR 0x22] @ '');</script>'')))"
proof -
  have k: "flagKey example_helper_options = ''oauthLogin''"
    by (simp add: example_helper_options_def)
  have f: "errorMessage example_helper_options = JUndefined"
    "errorContext example_helper_options = JStr ''Enable {flagName}''"
    "errorHelp example_helper_options = JUndefined"
    "async example_helper_options = JBool True"
    by (simp_all add: example_helper_options_def)
  note on = enabledHelper_callback_or_error
    [of example_testing example_labs_state example_helper_options example_tpl "\<lambda>_. ''rendered''"]
  note off = enabledHelper_callback_or_error
    [of example_production example_labs_state example_helper_options example_tpl "\<lambda>_. ''rendered''"]
  from on have 1: "enabledHelper example_tpl example_testing example_labs_state
      example_helper_options (\<lambda>_. ''rendered'') = ([], FromCallback ''rendered'')"
    by (simp add: k example_isSet)
  from off have 2: "enabledHelper example_tpl example_production example_labs_state
       example_helper_options (\<lambda>_. ''rendered'')
      = ([DisabledFeatureError
            \<lparr>err_message = ''The '' @ [CHR 0x5C] @ ''{'' @ [CHR 0x5C] @ ''{{helperName}''
                             @ [CHR 0x5C] @ ''}'' @ [CHR 0x5C] @ ''} helper is not available.'',
             err_context = ''Enable {flagName}'',
             err_help = ''See {url}''\<rparr>],
         ResolvedPromise (SafeString
           (''<script>console.error('' @ [CHR 0x22]
              @ ''The '' @ [CHR 0x5C] @ ''{'' @ [CHR 0x5C] @ ''{{helperName}''
              @ [CHR 0x5C] @ ''}'' @ [CHR 0x5C] @ ''} helper is not available.''
              @ '' Enable {flagName} See {url}'' @ [CHR 0x22] @ '');</script>'')))"
    by (simp add: k f example_isSet example_tpl_def Let_def)
  from 1 2 show ?thesis by (rule conjI)
qed

text \<open>
  Claim C10. The middleware made by \<open>enabledMiddleware(flag)\<close> calls \<open>next()\<close> without an
  argument exactly when \<open>isSet(flag)\<close> is true, and \<open>next\<close> with a \<open>NotFoundError\<close>
  otherwise; the response reaches \<open>next\<close> as it was received.
\<close>

theorem enabledMiddleware_gate:
  "enabledMiddleware env st flag req res next
     = next res (if isSet env st flag then NoArgument else ErrorArgument NotFoundError)
   \<and> (isSet env st flag \<longrightarrow> enabledMiddleware env st flag req res Pair = (res, NoArgument))
   \<and> (\<not> isSet env st flag \<longrightarrow>
        enabledMiddleware env st flag req res Pair = (res, ErrorArgument NotFoundError))"
  by (simp add: enabledMiddleware_def)

text \<open>
  The same request passes under \<open>NODE_ENV=testing\<close> and is answered with \<open>NotFoundError\<close>
  in production.
\<close>

theorem enabledMiddleware_gate_witness:
  "enabledMiddleware example_testing example_labs_state ''oauthLogin'' () ''response'' Pair
     = (''response'', NoArgument)
   \<and> enabledMiddleware example_production example_labs_state ''oauthLogin'' () ''response'' Pair
     = (''response'', ErrorArgument NotFoundError)"
  using enabledMiddleware_gate
      [of example_testing example_labs_state "''oauthLogin''" "()" "''response''" Pair]
    enabledMiddleware_gate
      [of example_production example_labs_state "''oauthLogin''" "()" "''response''" Pair]
  by (simp add: example_isSet)


section \<open>Properties of the end-to-end utilities\<close>

subsection \<open>Runs and their traces\<close>

lemma and_then_ret_left: "and_then (ret x) f = f x"
  by (simp add: and_then_def ret_def)

lemma and_then_assoc:
  "and_then (and_then m f) g = and_then m (\<lambda>x. and_then (f x) g)"
  by (auto simp: and_then_def fun_eq_iff split: prod.splits completion.splits)

lemma and_then_Returned: "m st = (Returned x, st1) \<Longrightarrow> and_then m f st = f x st1"
  by (simp add: and_then_def)

lemma and_then_Thrown: "m st = (Thrown e, st1) \<Longrightarrow> and_then m f st = (Thrown e, st1)"
  by (simp add: and_then_def)

lemma first_failure_append:
  "first_failure f tr (xs @ ys) =
     (case first_failure f tr xs of
        Some r \<Rightarrow> Some r
      | None \<Rightarrow> map_option (\<lambda>(i, e). (length xs + i, e)) (first_failure f (tr @ xs) ys))"
proof (induction xs arbitrary: tr)
  case Nil
  show ?case by (simp add: option.map_ident case_prod_unfold)
next
  case (Cons x xs)
  show ?case
    by (auto simp: Cons.IH option.map_comp comp_def case_prod_unfold split: option.splits)
qed

lemma emitted_same: "emitted st st = []"
  by (simp add: emitted_def)

lemma emitted_append: "trace st' = trace st @ new \<Longrightarrow> emitted st st' = new"
  by (simp add: emitted_def)

lemma emitted_trans:
  "trace st1 = trace st @ emitted st st1 \<Longrightarrow> trace st2 = trace st1 @ emitted st1 st2 \<Longrightarrow>
     emitted st st2 = emitted st st1 @ emitted st1 st2
     \<and> trace st2 = trace st @ emitted st st2"
  by (metis append.assoc emitted_append)

lemma orderlyI:
  assumes "\<And>st c st'. m st = (c, st') \<Longrightarrow>
      \<exists>new. trace st' = trace st @ new \<and> list_all P new
        \<and> propagates (thrown_by w) (trace st) new c \<and> exit_code c = None"
  shows "orderly w P m"
  unfolding orderly_def
proof (intro allI)
  fix st
  obtain c st' where r: "m st = (c, st')" by (cases "m st")
  from assms [OF r] obtain new where
    "trace st' = trace st @ new" "list_all P new" "propagates (thrown_by w) (trace st) new c"
    "exit_code c = None" by blast
  then show "case m st of (c, st') \<Rightarrow>
               trace st' = trace st @ emitted st st'
               \<and> list_all P (emitted st st')
               \<and> propagates (thrown_by w) (trace st) (emitted st st') c
               \<and> exit_code c = None"
    by (simp add: r emitted_append)
qed

lemma orderlyD:
  assumes "orderly w P m" and "m st = (c, st')"
  shows "trace st' = trace st @ emitted st st'" "list_all P (emitted st st')"
    "propagates (thrown_by w) (trace st) (emitted st st') c" "exit_code c = None"
  using assms unfolding orderly_def by (auto split: prod.splits)

lemma orderly_ret: "orderly w P (ret x)"
  by (rule orderlyI) (simp add: ret_def propagates_def)

lemma orderly_call: "P (Call s) \<Longrightarrow> orderly w P (call w s)"
  by (rule orderlyI) (auto simp: call_def Let_def propagates_def split: reply.splits)

lemma orderly_await: "P (Await s) \<Longrightarrow> P (Settled s) \<Longrightarrow> orderly w P (await w s)"
  by (rule orderlyI) (auto simp: await_def Let_def propagates_def split: reply.splits)

lemma propagates_Returned:
  "propagates f tr new (Returned x) \<Longrightarrow> first_failure f tr new = None"
  by (auto simp: propagates_def split: option.splits)

lemma propagates_thrown_error:
  "thrown_error c = thrown_error c' \<Longrightarrow> propagates f tr new c = propagates f tr new c'"
  by (simp add: propagates_def split: option.splits prod.splits)

lemma orderly_and_then:
  fixes m :: "'a prog" and f :: "'a \<Rightarrow> 'b prog"
  assumes m: "orderly w P m" and f: "\<And>x. orderly w P (f x)"
  shows "orderly w P (and_then m f)"
proof (rule orderlyI)
  fix st c st'
  assume run: "and_then m f st = (c, st')"
  obtain c1 st1 where r1: "m st = (c1, st1)" by (cases "m st")
  note d1 = orderlyD [OF m r1]
  show "\<exists>new. trace st' = trace st @ new \<and> list_all P new
        \<and> propagates (thrown_by w) (trace st) new c \<and> exit_code c = None"
  proof (cases c1)
    case (Returned x)
    with run r1 have r2: "f x st1 = (c, st')"
      by (simp add: and_then_def)
    note d2 = orderlyD [OF f r2]
    from d1(3) Returned have ff1: "first_failure (thrown_by w) (trace st) (emitted st st1) = None"
      by (simp add: propagates_Returned)
    have tr: "trace st' = trace st @ (emitted st st1 @ emitted st1 st')"
      using d1(1) d2(1) by simp
    have "propagates (thrown_by w) (trace st) (emitted st st1 @ emitted st1 st') c"
      using d2(3) d1(1) ff1
      by (auto simp: propagates_def first_failure_append split: option.splits)
    with tr d1(2) d2(2) d2(4) show ?thesis
      by (intro exI [of _ "emitted st st1 @ emitted st1 st'"]) simp
  next
    case (Thrown e)
    with run r1 have "c = Thrown e" "st' = st1"
      by (simp_all add: and_then_def)
    moreover have "propagates (thrown_by w) (trace st) (emitted st st1) (Thrown e :: 'b completion)
        = propagates (thrown_by w) (trace st) (emitted st st1) (Thrown e :: 'a completion)"
      by (rule propagates_thrown_error) simp
    ultimately show ?thesis
      using d1 Thrown by (intro exI [of _ "emitted st st1"]) simp
  next
    case (Exited n)
    with d1(4) show ?thesis by simp
  qed
qed

lemma orderly_statements:
  "(\<And>m. m \<in> set ms \<Longrightarrow> orderly w P m) \<Longrightarrow> orderly w P (statements ms)"
  by (induction ms) (simp_all add: orderly_ret orderly_and_then)

lemma orderly_run_if: "orderly w P m \<Longrightarrow> orderly w P (run_if b m)"
  by (simp add: run_if_def orderly_ret)

lemma orderly_branch:
  assumes "orderly w P m1" and "orderly w P m2"
  shows "orderly w P (\<lambda>st. if b st then m1 st else m2 st)"
  using assms unfolding orderly_def by auto

lemma orderly_mono: "orderly w P m \<Longrightarrow> (\<And>s. P s \<Longrightarrow> Q s) \<Longrightarrow> orderly w Q m"
  unfolding orderly_def by (auto simp: list_all_iff split: prod.splits)

lemma first_failure_no_toJSON:
  "list_all (\<lambda>e. \<not> json_call e) evs \<Longrightarrow>
     first_failure (escapes w) tr evs = first_failure (thrown_by w) tr evs"
proof (induction evs arbitrary: tr)
  case Nil
  show ?case by simp
next
  case (Cons e evs)
  from Cons.prems have "escapes w tr e = thrown_by w tr e"
    by (cases "(w, tr, e)" rule: escapes.cases) simp_all
  with Cons show ?case by (simp split: option.splits)
qed


subsection \<open>The restart path\<close>

lemma statements_perform:
  "statements (map (perform w) script) st =
     (case first_failure (thrown_by w) (trace st) (concat (map events_of script)) of
        None \<Rightarrow> (Returned (), st\<lparr>trace := trace st @ concat (map events_of script)\<rparr>)
      | Some (i, e) \<Rightarrow>
          (Thrown e, st\<lparr>trace := trace st @ take (Suc i) (concat (map events_of script))\<rparr>))"
proof (induction script arbitrary: st)
  case Nil
  show ?case by (simp add: ret_def)
next
  case (Cons a script)
  show ?case
  proof (cases a)
    case (Plainly s)
    show ?thesis
    proof (cases "thrown_by w (trace st) (Call s)")
      case None
      then have "statements (map (perform w) (a # script)) st
          = statements (map (perform w) script) (st\<lparr>trace := trace st @ [Call s]\<rparr>)"
        by (auto simp: Plainly and_then_def call_def split: reply.splits)
      also note Cons.IH
      finally show ?thesis
        using None by (simp add: Plainly split: option.splits)
    next
      case (Some e)
      then show ?thesis
        by (auto simp: Plainly and_then_def call_def split: reply.splits)
    qed
  next
    case (Awaiting s)
    show ?thesis
    proof (cases "thrown_by w (trace st) (Await s)")
      case None
      then have "statements (map (perform w) (a # script)) st
          = statements (map (perform w) script) (st\<lparr>trace := trace st @ [Await s, Settled s]\<rparr>)"
        by (auto simp: Awaiting and_then_def await_def split: reply.splits)
      also note Cons.IH
      finally show ?thesis
        using None by (simp add: Awaiting split: option.splits)
    next
      case (Some e)
      then show ?thesis
        by (auto simp: Awaiting and_then_def await_def split: reply.splits)
    qed
  qed
qed

lemma restart_as_script:
  "restartModeGhostStart w options
     = statements (map (perform w) (restart_script (frontend options)))"
  by (cases "frontend options")
     (simp_all add: restartModeGhostStart_def restart_script_def run_if_def
        and_then_assoc and_then_ret_left)

lemma restart_script_events:
  "concat (map events_of (restart_script fe)) = restart_runbook fe"
  by (cases fe) (simp_all add: restart_script_def restart_runbook_def)

lemma restart_run:
  "restartModeGhostStart w options st =
     (case first_failure (thrown_by w) (trace st) (restart_runbook (frontend options)) of
        None \<Rightarrow> (Returned (), st\<lparr>trace := trace st @ restart_runbook (frontend options)\<rparr>)
      | Some (i, e) \<Rightarrow>
          (Thrown e, st\<lparr>trace := trace st @ take (Suc i) (restart_runbook (frontend options))\<rparr>))"
  unfolding restart_as_script statements_perform restart_script_events ..

lemma first_failure_Some:
  "first_failure f tr evs = Some (i, e) \<Longrightarrow>
     i < length evs \<and> first_failure f tr (take (Suc i) evs) = Some (i, e)"
proof (induction evs arbitrary: tr i)
  case Nil
  then show ?case by simp
next
  case (Cons x evs)
  show ?case
  proof (cases "f tr x")
    case (Some e')
    with Cons.prems show ?thesis by simp
  next
    case None
    with Cons.prems obtain j where j: "first_failure f (tr @ [x]) evs = Some (j, e)" "i = Suc j"
      by (auto split: option.splits)
    from Cons.IH [OF j(1)] j(2) None show ?thesis by simp
  qed
qed

lemma awaits_respected_prefix: "awaits_respected (xs @ ys) \<Longrightarrow> awaits_respected xs"
proof (induction xs rule: awaits_respected.induct)
  case (3 s e tr)
  then show ?case by (cases tr) auto
qed auto

lemma comes_before_prefix:
  assumes "prefix tr book" and "comes_before x y book"
  shows "comes_before x y tr"
proof (cases "y \<in> set tr")
  case False
  then show ?thesis by (simp add: comes_before_def)
next
  case True
  from assms(1) obtain rest where book: "book = tr @ rest"
    by (auto simp: prefix_def)
  from True have "takeWhile (\<lambda>e. e \<noteq> y) (tr @ rest) = takeWhile (\<lambda>e. e \<noteq> y) tr"
    by (intro takeWhile_append1 [of y]) simp_all
  moreover from True assms(2) have "x \<in> set (takeWhile (\<lambda>e. e \<noteq> y) book)"
    by (auto simp: comes_before_def book)
  ultimately show ?thesis
    by (simp add: comes_before_def book)
qed

lemma restart_runbook_distinct: "distinct (restart_runbook fe)"
  by (cases fe) (simp_all add: restart_runbook_def)

lemma restart_runbook_awaits: "awaits_respected (restart_runbook fe)"
  by (cases fe) (simp_all add: restart_runbook_def)

lemma restart_runbook_order:
  "comes_before (Settled DbTeardown) (Await (KnexMigratorInit (Some 2))) (restart_runbook fe)"
  "comes_before (Settled (KnexMigratorInit (Some 2))) (Await SettingsInit) (restart_runbook fe)"
  "comes_before (Settled SettingsInit) (Call UrlUtilsReset) (restart_runbook fe)"
  "comes_before (Call UrlUtilsReset) (Call (UrlUtilsInit (\<not> fe))) (restart_runbook fe)"
  "comes_before (Call (UrlUtilsInit (\<not> fe))) (Await CustomRedirectsInit) (restart_runbook fe)"
  "comes_before (Settled SettingsInit) (Await CustomRedirectsInit) (restart_runbook fe)"
  "comes_before (Settled CustomRedirectsInit) (Call LimitsInit) (restart_runbook fe)"
  by (cases fe; simp add: restart_runbook_def comes_before_def)+

lemma take_awaits_respected:
  "awaits_respected xs \<Longrightarrow> awaits_respected (take n xs)"
  by (metis append_take_drop_id awaits_respected_prefix)

text \<open>
  Claim C5. The restart path is a fixed, linear runbook. Whatever the calls do, what
  \<open>restartModeGhostStart\<close> has done is a prefix of \<open>restart_runbook\<close>, with no event twice
  (nothing is retried). Teardown has settled before the fixture init (\<open>only: 2\<close>) starts,
  the fixture init has settled before the settings init starts, the settings init has
  settled before the URL service is reset, the reset comes before the URL service init, and
  these before the redirects init, which has settled before the limits init is called.
  Every awaited call is followed at once by its settling unless the run ended in it, so no
  step starts before the awaited step before it has completed. A call that throws, or an
  awaited call that throws or rejects, is the last thing done and its error is what the
  function throws; the function returns exactly when the whole runbook has run so.
\<close>

theorem restart_is_linear_runbook:
  assumes "restartModeGhostStart w options st = (c, st')"
  shows "trace st' = trace st @ emitted st st'
       \<and> prefix (emitted st st') (restart_runbook (frontend options))
       \<and> distinct (emitted st st')
       \<and> awaits_respected (emitted st st')
       \<and> comes_before (Settled DbTeardown) (Await (KnexMigratorInit (Some 2))) (emitted st st')
       \<and> comes_before (Settled (KnexMigratorInit (Some 2))) (Await SettingsInit)
            (emitted st st')
       \<and> comes_before (Settled SettingsInit) (Call UrlUtilsReset) (emitted st st')
       \<and> comes_before (Call UrlUtilsReset) (Call (UrlUtilsInit (\<not> frontend options)))
            (emitted st st')
       \<and> comes_before (Call (UrlUtilsInit (\<not> frontend options))) (Await CustomRedirectsInit)
            (emitted st st')
       \<and> comes_before (Settled SettingsInit) (Await CustomRedirectsInit) (emitted st st')
       \<and> comes_before (Settled CustomRedirectsInit) (Call LimitsInit) (emitted st st')
       \<and> propagates (thrown_by w) (trace st) (emitted st st') c
       \<and> (c = Returned () \<longleftrightarrow>
            emitted st st' = restart_runbook (frontend options)
            \<and> first_failure (thrown_by w) (trace st) (restart_runbook (frontend options)) = None)
       \<and> exit_code c = None"
proof -
  define book where "book = restart_runbook (frontend options)"
  have shape: "\<exists>n. emitted st st' = take n book \<and> trace st' = trace st @ take n book
      \<and> propagates (thrown_by w) (trace st) (take n book) c
      \<and> (c = Returned () \<longleftrightarrow>
            take n book = book \<and> first_failure (thrown_by w) (trace st) book = None)
      \<and> exit_code c = None"
  proof (cases "first_failure (thrown_by w) (trace st) book")
    case None
    with assms have r: "c = Returned ()" "trace st' = trace st @ book"
      by (auto simp: restart_run book_def)
    then have "emitted st st' = take (length book) book"
      by (simp add: emitted_def)
    with r None show ?thesis
      by (intro exI [of _ "length book"]) (simp add: propagates_def)
  next
    case (Some a)
    obtain i e where a: "a = (i, e)" by (cases a)
    with Some assms have r: "c = Thrown e" "trace st' = trace st @ take (Suc i) book"
      by (auto simp: restart_run book_def)
    then have em: "emitted st st' = take (Suc i) book"
      by (simp add: emitted_def)
    from Some a have s: "first_failure (thrown_by w) (trace st) book = Some (i, e)"
      by simp
    note ff = first_failure_Some [OF s]
    from ff have len: "length (take (Suc i) book) = Suc i" by simp
    show ?thesis
      using em r ff s len
      by (intro exI [of _ "Suc i"]) (simp add: propagates_def del: length_take)
  qed
  then obtain n where n: "emitted st st' = take n book" "trace st' = trace st @ take n book"
      "propagates (thrown_by w) (trace st) (take n book) c"
      "c = Returned () \<longleftrightarrow>
            take n book = book \<and> first_failure (thrown_by w) (trace st) book = None"
      "exit_code c = None"
    by (elim exE conjE)
  have p: "prefix (take n book) book"
    by (rule take_is_prefix)
  have d: "distinct (take n book)"
    unfolding book_def by (rule distinct_take [OF restart_runbook_distinct])
  have a: "awaits_respected (take n book)"
    unfolding book_def by (rule take_awaits_respected [OF restart_runbook_awaits])
  note o = restart_runbook_order [of "frontend options", folded book_def,
      THEN comes_before_prefix [OF p]]
  show ?thesis
    unfolding n(1) book_def [symmetric]
    using n(2-5) p d a o by (intro conjI)
qed


subsection \<open>exposeFixtures\<close>

lemma first_failure_never:
  "(\<And>tr e. e \<in> set evs \<Longrightarrow> f tr e = None) \<Longrightarrow> first_failure f tr evs = None"
  by (induction evs arbitrary: tr) simp_all

lemma escapes_json: "json_call e \<Longrightarrow> escapes w tr e = None"
  by (cases "(w, tr, e)" rule: escapes.cases) simp_all

lemma escapes_handler: "handler_event e \<Longrightarrow> escapes w tr e = None"
  by (cases e rule: handler_event.cases) (simp_all add: reply_def)

lemma first_rejection_None:
  "first_rejection ps = None \<longleftrightarrow> \<not> list_ex (\<lambda>p. isl (snd p)) ps"
  by (induction ps rule: first_rejection.induct) (auto split: option.splits)

lemma first_rejection_Some:
  "first_rejection ps = Some (t, e) \<Longrightarrow> (t, Inl e) \<in> set ps"
  by (induction ps arbitrary: t e rule: first_rejection.induct)
     (auto split: option.splits if_splits)

lemma first_rejection_earliest:
  "first_rejection ps = Some (t, e) \<Longrightarrow> (t', Inl e') \<in> set ps \<Longrightarrow> t \<le> t'"
  by (induction ps arbitrary: t e rule: first_rejection.induct)
     (auto split: option.splits if_splits simp: first_rejection_None list_ex_iff)

lemma query_orderly:
  "orderly w (\<lambda>e. fixture_event e \<and> \<not> json_call e \<and> \<not> handler_event e \<and> \<not> start_marker e)
     (query w model)"
  by (rule orderlyI) (auto simp: query_def Let_def propagates_def split: reply.splits)

lemma queries_orderly:
  "orderly w (\<lambda>e. fixture_event e \<and> \<not> json_call e \<and> \<not> handler_event e \<and> \<not> start_marker e)
     (queries w models)"
  by (induction models) (auto intro!: orderly_ret orderly_and_then query_orderly)

lemma keeps_serverD: "keeps_server m \<Longrightarrow> m st = (c, st') \<Longrightarrow> ghostServer st' = ghostServer st"
  unfolding keeps_server_def by (metis snd_conv)

lemma keeps_server_ret: "keeps_server (ret x)"
  by (simp add: keeps_server_def ret_def)

lemma keeps_server_call: "keeps_server (call w s)"
  by (simp add: keeps_server_def call_def Let_def split: reply.splits)

lemma keeps_server_and_then:
  "keeps_server m \<Longrightarrow> (\<And>x. keeps_server (f x)) \<Longrightarrow> keeps_server (and_then m f)"
  unfolding keeps_server_def and_then_def
  by (auto split: prod.splits completion.splits) (metis snd_conv)+

lemma keeps_server_statements:
  "(\<And>m. m \<in> set ms \<Longrightarrow> keeps_server m) \<Longrightarrow> keeps_server (statements ms)"
  by (induction ms) (simp_all add: keeps_server_ret keeps_server_and_then)

lemma keeps_server_run_if: "keeps_server m \<Longrightarrow> keeps_server (run_if b m)"
  by (simp add: run_if_def keeps_server_ret)

lemma query_keeps_server: "keeps_server (query w model)"
  by (simp add: keeps_server_def query_def Let_def split: reply.splits)

lemma queries_keeps_server: "keeps_server (queries w models)"
  by (induction models)
     (auto intro!: keeps_server_ret keeps_server_and_then query_keeps_server)

lemma store_fixtures_run:
  "store_fixtures w kvs st = (c, st') \<Longrightarrow>
     trace st' = trace st @ emitted st st' \<and> list_all json_call (emitted st st')
       \<and> exit_code c = None \<and> ghostServer st' = ghostServer st"
proof (induction kvs arbitrary: st)
  case Nil
  then show ?case by (auto simp: ret_def emitted_def)
next
  case (Cons kv kvs)
  obtain key result where kv: "kv = (key, result)" by (cases kv)
  define st1 where "st1 = st\<lparr>trace := trace st @ [Call (ToJSON key)]\<rparr>"
  have e1: "trace st1 = trace st @ emitted st st1" "emitted st st1 = [Call (ToJSON key)]"
    "ghostServer st1 = ghostServer st"
    by (simp_all add: st1_def emitted_def)
  show ?case
  proof (cases "reply w (trace st) (ToJSON key)")
    case (Throws e)
    with Cons.prems have "c = Thrown e" "st' = st1"
      by (simp_all add: kv and_then_def call_def st1_def)
    with e1 show ?thesis by simp
  next
    case Completes
    define st2 where "st2 = st1\<lparr>existingData := existingData st1 @ [(key, toJSON w result)]\<rparr>"
    from Completes Cons.prems have "store_fixtures w kvs st2 = (c, st')"
      by (simp add: kv and_then_def call_def st1_def st2_def)
    from Cons.IH [OF this] have ih: "trace st' = trace st2 @ emitted st2 st'"
      "list_all json_call (emitted st2 st')" "exit_code c = None"
      "ghostServer st' = ghostServer st2"
      by simp_all
    have "trace st2 = trace st1" "ghostServer st2 = ghostServer st1"
      by (simp_all add: st2_def)
    with ih(1,4) e1 have t: "trace st' = trace st @ ([Call (ToJSON key)] @ emitted st2 st')"
      and g: "ghostServer st' = ghostServer st"
      by simp_all
    have em: "emitted st st' = [Call (ToJSON key)] @ emitted st2 st'"
      by (rule emitted_append [OF t])
    from t g ih(2,3) show ?thesis
      unfolding em by simp
  next
    case (Rejects e)
    define st2 where "st2 = st1\<lparr>existingData := existingData st1 @ [(key, toJSON w result)]\<rparr>"
    from Rejects Cons.prems have "store_fixtures w kvs st2 = (c, st')"
      by (simp add: kv and_then_def call_def st1_def st2_def)
    from Cons.IH [OF this] have ih: "trace st' = trace st2 @ emitted st2 st'"
      "list_all json_call (emitted st2 st')" "exit_code c = None"
      "ghostServer st' = ghostServer st2"
      by simp_all
    have "trace st2 = trace st1" "ghostServer st2 = ghostServer st1"
      by (simp_all add: st2_def)
    with ih(1,4) e1 have t: "trace st' = trace st @ ([Call (ToJSON key)] @ emitted st2 st')"
      and g: "ghostServer st' = ghostServer st"
      by simp_all
    have em: "emitted st st' = [Call (ToJSON key)] @ emitted st2 st'"
      by (rule emitted_append [OF t])
    from t g ih(2,3) show ?thesis
      unfolding em by simp
  qed
qed

lemma exposeFixtures_rejected:
  assumes "queries w (map snd fixture_queries) st = (Returned ps, st1)"
    and "first_rejection ps = Some (t, e)"
  shows "exposeFixtures w st =
     (Exited 1, st1\<lparr>existingData := [],
                    trace := trace st1 @ [Call (ConsoleError e), Call (ProcessExit 1)]\<rparr>)"
  unfolding exposeFixtures_def
    and_then_Returned [of "queries w (map snd fixture_queries)" st ps st1, OF assms(1)]
  using assms(2) by (simp add: promise_all_def report_and_exit_def)

lemma exposeFixtures_json_threw:
  assumes "queries w (map snd fixture_queries) st = (Returned ps, st1)"
    and "first_rejection ps = None"
    and "store_fixtures w (zip (map fst fixture_queries) (map resolved ps))
           (st1\<lparr>existingData := []\<rparr>) = (Thrown e, st2)"
  shows "exposeFixtures w st =
     (Exited 1, st2\<lparr>trace := trace st2 @ [Call (ConsoleError e), Call (ProcessExit 1)]\<rparr>)"
  unfolding exposeFixtures_def
    and_then_Returned [of "queries w (map snd fixture_queries)" st ps st1, OF assms(1)]
  using assms(2,3) by (simp add: promise_all_def report_and_exit_def)

lemma exposeFixtures_stored:
  assumes "queries w (map snd fixture_queries) st = (Returned ps, st1)"
    and "first_rejection ps = None"
    and "store_fixtures w (zip (map fst fixture_queries) (map resolved ps))
           (st1\<lparr>existingData := []\<rparr>) = (Returned u, st2)"
  shows "exposeFixtures w st = (Returned u, st2)"
  unfolding exposeFixtures_def
    and_then_Returned [of "queries w (map snd fixture_queries)" st ps st1, OF assms(1)]
  using assms(2,3) by (simp add: promise_all_def)

lemma exposeFixtures_query_threw:
  assumes "queries w (map snd fixture_queries) st = (Thrown e, st1)"
  shows "exposeFixtures w st = (Thrown e, st1)"
  unfolding exposeFixtures_def
    and_then_Thrown [of "queries w (map snd fixture_queries)" st e st1, OF assms] ..

lemma list_all_weaken: "list_all P xs \<Longrightarrow> (\<And>x. P x \<Longrightarrow> Q x) \<Longrightarrow> list_all Q xs"
  by (auto simp: list_all_iff)

lemma first_failure_append_None:
  "first_failure f tr xs = None \<Longrightarrow> first_failure f (tr @ xs) ys = None \<Longrightarrow>
     first_failure f tr (xs @ ys) = None"
  by (simp add: first_failure_append)

lemma propagates_None:
  "first_failure f tr new = None \<Longrightarrow> thrown_error c = None \<Longrightarrow> propagates f tr new c"
  by (simp add: propagates_def)

lemma handlers_never_fail:
  "first_failure (escapes w) tr [Call (ConsoleError e), Call (ProcessExit n)] = None"
  by (rule first_failure_never) (auto simp: reply_def)

lemma exposeFixtures_run:
  assumes "exposeFixtures w st = (c, st')"
  shows "trace st' = trace st @ emitted st st'
       \<and> list_all fixture_event (emitted st st')
       \<and> ghostServer st' = ghostServer st
       \<and> propagates (escapes w) (trace st) (emitted st st') c
       \<and> (thrown_error c \<noteq> None \<longrightarrow> \<not> list_ex handler_event (emitted st st'))
       \<and> (exit_code c \<noteq> None \<longrightarrow> exit_code c = Some 1 \<and> list_ex handler_event (emitted st st'))"
proof -
  define P where
    "P = (\<lambda>e. fixture_event e \<and> \<not> json_call e \<and> \<not> handler_event e \<and> \<not> start_marker e)"
  obtain c1 st1 where r1: "queries w (map snd fixture_queries) st = (c1, st1)"
    by (cases "queries w (map snd fixture_queries) st")
  have o: "orderly w P (queries w (map snd fixture_queries))"
    unfolding P_def by (rule queries_orderly)
  note d1 = orderlyD [OF o r1]
  note g1 = keeps_serverD [OF queries_keeps_server r1]
  have nj: "list_all (\<lambda>e. \<not> json_call e) (emitted st st1)"
    by (rule list_all_weaken [OF d1(2)]) (simp add: P_def)
  have nh: "\<not> list_ex handler_event (emitted st st1)"
    using d1(2) by (auto simp: list_all_iff list_ex_iff P_def)
  have fe: "list_all fixture_event (emitted st st1)"
    by (rule list_all_weaken [OF d1(2)]) (simp add: P_def)
  have esc1: "first_failure (escapes w) (trace st) (emitted st st1)
      = first_failure (thrown_by w) (trace st) (emitted st st1)"
    by (rule first_failure_no_toJSON [OF nj])
  show ?thesis
  proof (cases c1)
    case (Thrown e)
    with r1 have "exposeFixtures w st = (Thrown e, st1)"
      by (simp add: exposeFixtures_query_threw)
    with assms have c: "c = Thrown e" and s: "st' = st1" by simp_all
    have "thrown_error c = thrown_error c1"
      by (simp add: c Thrown)
    then have "propagates (escapes w) (trace st) (emitted st st1) c
        = propagates (thrown_by w) (trace st) (emitted st st1) c1"
      unfolding propagates_def esc1 by (simp split: option.splits)
    with d1 g1 nh fe show ?thesis
      by (simp add: s c)
  next
    case (Exited n)
    with d1(4) show ?thesis by simp
  next
    case (Returned ps)
    with r1 have r1': "queries w (map snd fixture_queries) st = (Returned ps, st1)" by simp
    from d1(3) Returned have ff1: "first_failure (escapes w) (trace st) (emitted st st1) = None"
      by (simp add: esc1 propagates_Returned)
    show ?thesis
    proof (cases "first_rejection ps")
      case (Some a)
      obtain t e where "a = (t, e)" by (cases a)
      with Some have fr: "first_rejection ps = Some (t, e)" by simp
      from assms exposeFixtures_rejected [OF r1' fr]
      have c: "c = Exited 1"
        and s: "st' = st1\<lparr>existingData := [],
                    trace := trace st1 @ [Call (ConsoleError e), Call (ProcessExit 1)]\<rparr>"
        by simp_all
      have t: "trace st' = trace st @ (emitted st st1 @ [Call (ConsoleError e), Call (ProcessExit 1)])"
        using d1(1) by (simp add: s)
      have em: "emitted st st' = emitted st st1 @ [Call (ConsoleError e), Call (ProcessExit 1)]"
        by (rule emitted_append [OF t])
      have "propagates (escapes w) (trace st) (emitted st st') c"
        unfolding em
        by (intro propagates_None first_failure_append_None ff1 handlers_never_fail)
           (simp add: c)
      moreover have "ghostServer st' = ghostServer st"
        using g1 by (simp add: s)
      ultimately show ?thesis
        using t fe unfolding em by (simp add: c)
    next
      case None
      define kvs where "kvs = zip (map fst fixture_queries) (map resolved ps)"
      obtain c2 st2 where r2: "store_fixtures w kvs (st1\<lparr>existingData := []\<rparr>) = (c2, st2)"
        by (cases "store_fixtures w kvs (st1\<lparr>existingData := []\<rparr>)")
      from store_fixtures_run [OF r2]
      have d2: "trace st2 = trace st1 @ emitted (st1\<lparr>existingData := []\<rparr>) st2"
        "list_all json_call (emitted (st1\<lparr>existingData := []\<rparr>) st2)"
        "exit_code c2 = None" "ghostServer st2 = ghostServer st1"
        by simp_all
      define js where "js = emitted (st1\<lparr>existingData := []\<rparr>) st2"
      have jf: "list_all fixture_event js"
        using d2(2) unfolding js_def [symmetric]
        by (rule list_all_weaken) (auto elim: json_call.elims)
      have jh: "\<not> list_ex handler_event js"
        using d2(2) unfolding js_def [symmetric]
        by (auto simp: list_all_iff list_ex_iff elim!: json_call.elims)
      have jn: "first_failure (escapes w) tr js = None" for tr
        by (rule first_failure_never) (use d2(2) in \<open>auto simp: js_def list_all_iff escapes_json\<close>)
      show ?thesis
      proof (cases c2)
        case (Exited n)
        with d2(3) show ?thesis by simp
      next
        case (Returned u)
        from assms exposeFixtures_stored [OF r1' None r2 [unfolded kvs_def Returned]]
        have c: "c = Returned u" and s: "st' = st2" by simp_all
        have t: "trace st' = trace st @ (emitted st st1 @ js)"
          using d1(1) d2(1) by (simp add: s js_def)
        have em: "emitted st st' = emitted st st1 @ js"
          by (rule emitted_append [OF t])
        have "propagates (escapes w) (trace st) (emitted st st') c"
          unfolding em
          by (intro propagates_None first_failure_append_None ff1 jn)
             (simp add: c)
        moreover have "ghostServer st' = ghostServer st"
          using g1 d2(4) by (simp add: s)
        ultimately show ?thesis
          using t fe jf unfolding em by (simp add: c)
      next
        case (Thrown e)
        from assms exposeFixtures_json_threw [OF r1' None r2 [unfolded kvs_def Thrown]]
        have c: "c = Exited 1"
          and s: "st' = st2\<lparr>trace := trace st2 @ [Call (ConsoleError e), Call (ProcessExit 1)]\<rparr>"
          by simp_all
        have t: "trace st' = trace st
            @ (emitted st st1 @ js @ [Call (ConsoleError e), Call (ProcessExit 1)])"
          using d1(1) d2(1) by (simp add: s js_def)
        have em: "emitted st st'
            = emitted st st1 @ js @ [Call (ConsoleError e), Call (ProcessExit 1)]"
          by (rule emitted_append [OF t])
        have "propagates (escapes w) (trace st) (emitted st st') c"
          unfolding em
          by (intro propagates_None first_failure_append_None ff1 jn handlers_never_fail)
             (simp add: c)
        moreover have "ghostServer st' = ghostServer st"
          using g1 d2(4) by (simp add: s)
        ultimately show ?thesis
          using t fe jf unfolding em by (simp add: c)
      qed
    qed
  qed
qed


subsection \<open>The functions of the start paths\<close>

lemma prepare_keeps_server: "keeps_server (prepareContentFolder w options)"
  unfolding prepareContentFolder_def Let_def
  by (rule keeps_server_statements) (auto intro: keeps_server_call keeps_server_run_if)

lemma prepare_orderly:
  "orderly w (\<lambda>e. \<not> start_marker e \<and> \<not> fixture_event e) (prepareContentFolder w options)"
  unfolding prepareContentFolder_def Let_def
  by (rule orderly_statements) (auto intro!: orderly_call orderly_run_if)

lemma restart_orderly:
  "orderly w (\<lambda>e. \<not> fixture_event e) (restartModeGhostStart w options)"
  unfolding restartModeGhostStart_def
  by (rule orderly_statements)
     (auto intro!: orderly_call orderly_await orderly_run_if orderly_and_then orderly_ret)

lemma stopGhost_orderly:
  "orderly w (\<lambda>e. \<not> start_marker e \<and> \<not> fixture_event e) (stopGhost w)"
  unfolding stopGhost_def
  by (rule orderly_branch)
     (auto intro!: orderly_and_then orderly_call orderly_await orderly_ret)

lemma bootGhost_orderly:
  "orderly w (\<lambda>e. \<not> start_marker e \<and> \<not> fixture_event e) (bootGhost w options)"
proof (rule orderlyI)
  fix st c st'
  assume run: "bootGhost w options st = (c, st')"
  obtain c1 st1 where r1: "await w (Boot (backend options) (frontend options)) st = (c1, st1)"
    by (cases "await w (Boot (backend options) (frontend options)) st")
  have o: "orderly w (\<lambda>e. \<not> start_marker e \<and> \<not> fixture_event e)
      (await w (Boot (backend options) (frontend options)))"
    by (rule orderly_await) simp_all
  note d = orderlyD [OF o r1]
  from run r1 have "thrown_error c = thrown_error c1" "exit_code c = exit_code c1"
    "trace st' = trace st1"
    by (auto simp: bootGhost_def and_then_def split: completion.splits)
  with d show "\<exists>new. trace st' = trace st @ new
      \<and> list_all (\<lambda>e. \<not> start_marker e \<and> \<not> fixture_event e) new
      \<and> propagates (thrown_by w) (trace st) new c \<and> exit_code c = None"
    by (intro exI [of _ "emitted st st1"])
       (simp add: propagates_thrown_error [of c c1])
qed

lemma fresh_rest_orderly:
  "orderly w (\<lambda>e. \<not> start_marker e \<and> \<not> fixture_event e)
     (statements
        [await w KnexMigratorReset, stopGhost w, call w SettingsShutdown,
         await w (KnexMigratorInit None), await w SettingsInit, call w UrlResetGenerators,
         bootGhost w options, run_if (frontend options) (await w UrlUtilsIsFinished)])"
  by (rule orderly_statements)
     (auto intro!: orderly_call orderly_await orderly_run_if stopGhost_orderly bootGhost_orderly)

lemma fresh_orderly:
  "orderly w (\<lambda>e. \<not> fixture_event e) (freshModeGhostStart w options)"
  unfolding freshModeGhostStart_def
  by (rule orderly_statements)
     (auto intro!: orderly_call orderly_await orderly_run_if
        orderly_mono [OF stopGhost_orderly] orderly_mono [OF bootGhost_orderly])


subsection \<open>The two start paths\<close>

lemma no_marker_no_path:
  "list_all (\<lambda>e. \<not> start_marker e \<and> \<not> fixture_event e) new \<Longrightarrow>
     \<not> ran_restart new \<and> \<not> ran_fresh new"
  by (auto simp: list_all_iff ran_restart_def ran_fresh_def)

lemma fixture_no_path:
  "list_all fixture_event new \<Longrightarrow> \<not> ran_restart new \<and> \<not> ran_fresh new"
  by (auto simp: list_all_iff ran_restart_def ran_fresh_def)

lemma ran_append:
  "ran_restart (xs @ ys) = (ran_restart xs \<or> ran_restart ys)"
  "ran_fresh (xs @ ys) = (ran_fresh xs \<or> ran_fresh ys)"
  by (auto simp: ran_restart_def ran_fresh_def)

lemma restart_runbook_head:
  "take (Suc i) (restart_runbook fe)
     = Call (Debug ''Reload Mode'') # take i (tl (restart_runbook fe))"
  by (simp add: restart_runbook_def)

lemma restart_runbook_no_fresh: "\<not> ran_fresh (restart_runbook fe)"
  by (simp add: restart_runbook_def ran_fresh_def)

lemma restart_marks:
  assumes "restartModeGhostStart w options st = (c, st')"
  shows "ran_restart (emitted st st') \<and> \<not> ran_fresh (emitted st st')"
proof (cases "first_failure (thrown_by w) (trace st) (restart_runbook (frontend options))")
  case None
  with assms have "emitted st st' = restart_runbook (frontend options)"
    by (auto simp: restart_run emitted_def)
  then show ?thesis
    using restart_runbook_no_fresh by (simp add: ran_restart_def restart_runbook_def)
next
  case (Some a)
  obtain i e where "a = (i, e)" by (cases a)
  with Some assms have em: "emitted st st' = take (Suc i) (restart_runbook (frontend options))"
    by (auto simp: restart_run emitted_def)
  have "\<not> ran_fresh (take (Suc i) (restart_runbook (frontend options)))"
    using restart_runbook_no_fresh [of "frontend options"]
    unfolding ran_fresh_def by (meson in_set_takeD)
  then show ?thesis
    unfolding em by (simp add: restart_runbook_head ran_restart_def)
qed

lemma fresh_marks:
  assumes "freshModeGhostStart w options st = (c, st')"
  shows "ran_fresh (emitted st st') \<and> \<not> ran_restart (emitted st st')"
proof -
  define marker where
    "marker = (if forceStart options then ''Forced Restart Mode'' else ''Fresh Start Mode'')"
  define st1 where "st1 = st\<lparr>trace := trace st @ [Call (Debug marker)]\<rparr>"
  define rest where "rest = statements
        [await w KnexMigratorReset, stopGhost w, call w SettingsShutdown,
         await w (KnexMigratorInit None), await w SettingsInit, call w UrlResetGenerators,
         bootGhost w options, run_if (frontend options) (await w UrlUtilsIsFinished)]"
  have "freshModeGhostStart w options st = rest st1"
    by (simp add: freshModeGhostStart_def rest_def st1_def marker_def and_then_def call_def
        reply_def)
  with assms have r: "rest st1 = (c, st')" by simp
  have o: "orderly w (\<lambda>e. \<not> start_marker e \<and> \<not> fixture_event e) rest"
    unfolding rest_def by (rule fresh_rest_orderly)
  note d = orderlyD [OF o r]
  have e1: "trace st1 = trace st @ emitted st st1" and e1': "emitted st st1 = [Call (Debug marker)]"
    by (simp_all add: st1_def emitted_def)
  from emitted_trans [OF e1 d(1)] e1'
  have em: "emitted st st' = Call (Debug marker) # emitted st1 st'" by simp
  from no_marker_no_path [OF d(2)] show ?thesis
    unfolding em by (auto simp: ran_fresh_def ran_restart_def marker_def)
qed

lemma startGhost_unfold:
  "startGhost w opts st =
     and_then (prepareContentFolder w (merge_options w opts)) (\<lambda>_.
       and_then (\<lambda>st. if server_running st \<and> \<not> forceStart (merge_options w opts)
                      then restartModeGhostStart w (merge_options w opts) st
                      else freshModeGhostStart w (merge_options w opts) st) (\<lambda>_.
       and_then (exposeFixtures w) (\<lambda>_ st. (Returned (ghostServer st), st))))
       (st\<lparr>trace := trace st @ [Call (Debug ''Start Ghost'')]\<rparr>)"
  by (simp add: startGhost_def and_then_def call_def reply_def Let_def)

lemma startGhost_orderly_start:
  "orderly w (\<lambda>e. \<not> fixture_event e)
     (and_then (call w (Debug ''Start Ghost'')) (\<lambda>_.
        and_then (prepareContentFolder w options) (\<lambda>_ st.
          if server_running st \<and> \<not> forceStart options
          then restartModeGhostStart w options st
          else freshModeGhostStart w options st)))"
  by (intro orderly_and_then orderly_call orderly_branch restart_orderly fresh_orderly
      orderly_mono [OF prepare_orderly]) simp_all

text \<open>
  Claim C4, amended. A call of \<open>startGhost\<close> in which \<open>prepareContentFolder\<close> returns runs
  \<open>restartModeGhostStart\<close> exactly when a \<open>ghostServer\<close> with an \<open>httpServer\<close> exists and
  \<open>options.forceStart\<close> is false, and \<open>freshModeGhostStart\<close> exactly in every other case. A
  call in which \<open>prepareContentFolder\<close> throws runs neither and rejects with that error,
  in the state \<open>prepareContentFolder\<close> left: nothing further is run. No call runs both.
\<close>

theorem startGhost_two_paths:
  assumes "startGhost w opts st = (c, st')"
  shows "(fst (prepareContentFolder w (merge_options w opts)
                 (st\<lparr>trace := trace st @ [Call (Debug ''Start Ghost'')]\<rparr>)) = Returned () \<longrightarrow>
            (ran_restart (emitted st st')
               \<longleftrightarrow> server_running st \<and> \<not> forceStart (merge_options w opts))
          \<and> (ran_fresh (emitted st st')
               \<longleftrightarrow> \<not> (server_running st \<and> \<not> forceStart (merge_options w opts))))
       \<and> (fst (prepareContentFolder w (merge_options w opts)
                 (st\<lparr>trace := trace st @ [Call (Debug ''Start Ghost'')]\<rparr>)) \<noteq> Returned () \<longrightarrow>
            \<not> ran_restart (emitted st st') \<and> \<not> ran_fresh (emitted st st')
            \<and> thrown_error c \<noteq> None
            \<and> thrown_error c
                = thrown_error (fst (prepareContentFolder w (merge_options w opts)
                     (st\<lparr>trace := trace st @ [Call (Debug ''Start Ghost'')]\<rparr>)))
            \<and> st' = snd (prepareContentFolder w (merge_options w opts)
                     (st\<lparr>trace := trace st @ [Call (Debug ''Start Ghost'')]\<rparr>)))
       \<and> \<not> (ran_restart (emitted st st') \<and> ran_fresh (emitted st st'))"
proof -
  define options where "options = merge_options w opts"
  define st0 where "st0 = st\<lparr>trace := trace st @ [Call (Debug ''Start Ghost'')]\<rparr>"
  define path where "path = (\<lambda>st. if server_running st \<and> \<not> forceStart options
                      then restartModeGhostStart w options st
                      else freshModeGhostStart w options st)"
  define cond where "cond = (server_running st \<and> \<not> forceStart options)"
  define finish where
    "finish = (\<lambda>u :: unit. and_then (exposeFixtures w)
                 (\<lambda>(_ :: unit) st. (Returned (ghostServer st), st)))"
  define after where "after = (\<lambda>u :: unit. and_then path finish)"
  have e0: "trace st0 = trace st @ emitted st st0"
    "emitted st st0 = [Call (Debug ''Start Ghost'')]"
    by (simp_all add: st0_def emitted_def)
  have g0: "ghostServer st0 = ghostServer st"
    by (simp add: st0_def)
  obtain c1 st1 where r1: "prepareContentFolder w options st0 = (c1, st1)"
    by (cases "prepareContentFolder w options st0")
  note d1 = orderlyD [OF prepare_orderly r1]
  note t1 = emitted_trans [OF e0(1) d1(1)]
  from keeps_serverD [OF prepare_keeps_server r1] g0
  have run1: "server_running st1 = server_running st"
    by (simp add: server_running_def)
  have "startGhost w opts st = and_then (prepareContentFolder w options) after st0"
    unfolding startGhost_unfold options_def st0_def path_def after_def finish_def ..
  with assms have run: "and_then (prepareContentFolder w options) after st0 = (c, st')"
    by simp
  have start_no: "\<not> ran_restart [Call (Debug ''Start Ghost'')]"
    "\<not> ran_fresh [Call (Debug ''Start Ghost'')]"
    by (simp_all add: ran_restart_def ran_fresh_def)
  have prep: "prepareContentFolder w (merge_options w opts)
                 (st\<lparr>trace := trace st @ [Call (Debug ''Start Ghost'')]\<rparr>) = (c1, st1)"
    using r1 by (simp add: options_def st0_def)
  have goal: "(c1 = Returned () \<longrightarrow>
            (ran_restart (emitted st st') \<longleftrightarrow> cond) \<and> (ran_fresh (emitted st st') \<longleftrightarrow> \<not> cond))
       \<and> (c1 \<noteq> Returned () \<longrightarrow>
            \<not> ran_restart (emitted st st') \<and> \<not> ran_fresh (emitted st st')
            \<and> thrown_error c \<noteq> None \<and> thrown_error c = thrown_error c1 \<and> st' = st1)
       \<and> \<not> (ran_restart (emitted st st') \<and> ran_fresh (emitted st st'))"
  proof (cases "c1 = Returned ()")
    case True
    with r1 have r1': "prepareContentFolder w options st0 = (Returned (), st1)" by simp
    from run have run': "and_then path finish st1 = (c, st')"
      unfolding and_then_Returned [of "prepareContentFolder w options" st0 "()" st1, OF r1']
        after_def .
    obtain c2 st2 where r2: "path st1 = (c2, st2)" by (cases "path st1")
    have o2: "orderly w (\<lambda>e. \<not> fixture_event e) path"
      unfolding path_def by (rule orderly_branch [OF restart_orderly fresh_orderly])
    note d2 = orderlyD [OF o2 r2]
    note t2 = emitted_trans [OF conjunct2 [OF t1] d2(1)]
    have marks: "(ran_restart (emitted st1 st2) \<longleftrightarrow> cond) \<and> (ran_fresh (emitted st1 st2) \<longleftrightarrow> \<not> cond)"
    proof (cases cond)
      case True
      with r2 run1 have "restartModeGhostStart w options st1 = (c2, st2)"
        by (simp add: path_def cond_def)
      from restart_marks [OF this] True show ?thesis by simp
    next
      case False
      with r2 run1 have "freshModeGhostStart w options st1 = (c2, st2)"
        by (auto simp: path_def cond_def split: if_splits)
      from fresh_marks [OF this] False show ?thesis by simp
    qed
    have tail: "\<exists>new. emitted st st' = emitted st st2 @ new \<and> list_all fixture_event new"
    proof (cases c2)
      case (Returned u)
      with r2 have r2': "path st1 = (Returned (), st2)" by simp
      obtain c3 st3 where r3: "exposeFixtures w st2 = (c3, st3)"
        by (cases "exposeFixtures w st2")
      note d3 = exposeFixtures_run [OF r3]
      from run' have "and_then (exposeFixtures w)
          (\<lambda>(_ :: unit) st. (Returned (ghostServer st), st)) st2 = (c, st')"
        unfolding and_then_Returned [of path st1 "()" st2, OF r2'] finish_def .
      with r3 have "st' = st3"
        by (cases c3) (simp_all add: and_then_def)
      moreover from d3 have "trace st3 = trace st2 @ emitted st2 st3"
        and "list_all fixture_event (emitted st2 st3)" by simp_all
      moreover note emitted_trans [OF conjunct2 [OF t2], of st3]
      ultimately show ?thesis by simp
    next
      case (Thrown e)
      with r2 have r2': "path st1 = (Thrown e, st2)" by simp
      from run' have "st' = st2"
        unfolding and_then_Thrown [of path st1 e st2, OF r2'] by simp
      then show ?thesis by simp
    next
      case (Exited n)
      with d2(4) show ?thesis by simp
    qed
    then obtain new where new: "emitted st st' = emitted st st2 @ new" "list_all fixture_event new"
      by (elim exE conjE)
    have em: "emitted st st'
        = [Call (Debug ''Start Ghost'')] @ emitted st0 st1 @ emitted st1 st2 @ new"
      using new(1) t1 t2 e0(2) by simp
    note n1 = no_marker_no_path [OF d1(2)]
    note n3 = fixture_no_path [OF new(2)]
    have "(ran_restart (emitted st st') \<longleftrightarrow> cond) \<and> (ran_fresh (emitted st st') \<longleftrightarrow> \<not> cond)"
      unfolding em ran_append using n1 n3 marks start_no by simp
    with True show ?thesis by simp
  next
    case False
    with d1(4) obtain e where thr: "c1 = Thrown e"
      by (cases c1) simp_all
    with r1 have r1': "prepareContentFolder w options st0 = (Thrown e, st1)" by simp
    from run have ce: "c = Thrown e" and se: "st' = st1"
      unfolding and_then_Thrown [of "prepareContentFolder w options" st0 e st1, OF r1']
      by simp_all
    from se t1 e0(2) have em: "emitted st st' = [Call (Debug ''Start Ghost'')] @ emitted st0 st1"
      by simp
    note n1 = no_marker_no_path [OF d1(2)]
    have "\<not> ran_restart (emitted st st') \<and> \<not> ran_fresh (emitted st st')"
      unfolding em ran_append using n1 start_no by simp
    with False ce se thr show ?thesis by simp
  qed
  show ?thesis
    unfolding prep fst_conv snd_conv using goal unfolding cond_def options_def .
qed


subsection \<open>Errors\<close>

lemma propagates_append:
  "first_failure f tr xs = None \<Longrightarrow> propagates f (tr @ xs) ys c \<Longrightarrow>
     propagates f tr (xs @ ys) c"
  by (auto simp: propagates_def first_failure_append split: option.splits)

lemma propagates_exit_code:
  "thrown_error c = thrown_error c' \<Longrightarrow> propagates f tr new c' \<Longrightarrow> propagates f tr new c"
  by (simp add: propagates_thrown_error [of c c'])

text \<open>
  Claim C6, amended. When the four \<open>findAll\<close> calls of \<open>exposeFixtures\<close> have returned their
  promises and one of them rejects, the reason of a rejected query is logged with
  \<open>console.error\<close> and \<open>process.exit(1)\<close> is called; the same happens with the error of the
  \<open>.then\<close> callback when no query rejects and that callback throws (a \<open>toJSON\<close> that throws).
  In \<open>startGhost\<close> every other error propagates: a call that throws (a \<open>findAll\<close> among
  them), or an awaited call that throws or whose promise rejects, is the last thing the run
  does, and its error is what \<open>startGhost\<close> rejects with; \<open>startGhost\<close> rejects only so,
  and then the handler has not run. The process exits only with code 1 and only through
  the handler.
\<close>

theorem fixture_errors_exit_other_errors_propagate:
  "(queries w (map snd fixture_queries) st = (Returned ps, st1)
      \<and> list_ex (\<lambda>p. isl (snd p)) ps \<longrightarrow>
      (\<exists>e. list_ex (\<lambda>p. snd p = Inl e) ps
         \<and> exposeFixtures w st =
             (Exited 1,
              st1\<lparr>existingData := [],
                  trace := trace st1 @ [Call (ConsoleError e), Call (ProcessExit 1)]\<rparr>)))
   \<and> (queries w (map snd fixture_queries) st = (Returned ps, st1)
      \<and> \<not> list_ex (\<lambda>p. isl (snd p)) ps
      \<and> store_fixtures w (zip (map fst fixture_queries) (map resolved ps))
            (st1\<lparr>existingData := []\<rparr>) = (Thrown e, st2) \<longrightarrow>
      exposeFixtures w st =
        (Exited 1, st2\<lparr>trace := trace st2 @ [Call (ConsoleError e), Call (ProcessExit 1)]\<rparr>))
   \<and> (case startGhost w opts st of
         (c, st') \<Rightarrow>
           trace st' = trace st @ emitted st st'
           \<and> propagates (escapes w) (trace st) (emitted st st') c
           \<and> (thrown_error c \<noteq> None \<longrightarrow> \<not> list_ex handler_event (emitted st st'))
           \<and> (exit_code c \<noteq> None \<longrightarrow>
                exit_code c = Some 1 \<and> list_ex handler_event (emitted st st')))"
proof (intro conjI impI)
  assume a: "queries w (map snd fixture_queries) st = (Returned ps, st1)
      \<and> list_ex (\<lambda>p. isl (snd p)) ps"
  then have "first_rejection ps \<noteq> None"
    by (simp add: first_rejection_None)
  then obtain t e where s: "first_rejection ps = Some (t, e)"
    by (cases "first_rejection ps") auto
  from first_rejection_Some [OF s] have "list_ex (\<lambda>p. snd p = Inl e) ps"
    unfolding list_ex_iff by (intro bexI [of _ "(t, Inl e)"]) simp_all
  with exposeFixtures_rejected [OF conjunct1 [OF a] s]
  show "\<exists>e. list_ex (\<lambda>p. snd p = Inl e) ps
         \<and> exposeFixtures w st =
             (Exited 1,
              st1\<lparr>existingData := [],
                  trace := trace st1 @ [Call (ConsoleError e), Call (ProcessExit 1)]\<rparr>)"
    by (intro exI [of _ e] conjI)
next
  assume a: "queries w (map snd fixture_queries) st = (Returned ps, st1)
      \<and> \<not> list_ex (\<lambda>p. isl (snd p)) ps
      \<and> store_fixtures w (zip (map fst fixture_queries) (map resolved ps))
            (st1\<lparr>existingData := []\<rparr>) = (Thrown e, st2)"
  then have n: "first_rejection ps = None"
    by (simp add: first_rejection_None)
  from a have q: "queries w (map snd fixture_queries) st = (Returned ps, st1)"
    and sf: "store_fixtures w (zip (map fst fixture_queries) (map resolved ps))
            (st1\<lparr>existingData := []\<rparr>) = (Thrown e, st2)"
    by simp_all
  show "exposeFixtures w st =
        (Exited 1, st2\<lparr>trace := trace st2 @ [Call (ConsoleError e), Call (ProcessExit 1)]\<rparr>)"
    by (rule exposeFixtures_json_threw [OF q n sf])
next
  define options where "options = merge_options w opts"
  define start where "start = and_then (call w (Debug ''Start Ghost'')) (\<lambda>_.
        and_then (prepareContentFolder w options) (\<lambda>_ st.
          if server_running st \<and> \<not> forceStart options
          then restartModeGhostStart w options st
          else freshModeGhostStart w options st))"
  define finish where
    "finish = (\<lambda>u :: unit. and_then (exposeFixtures w)
                 (\<lambda>(_ :: unit) st. (Returned (ghostServer st), st)))"
  have o: "orderly w (\<lambda>e. \<not> fixture_event e) start"
    unfolding start_def by (rule startGhost_orderly_start)
  have sg: "startGhost w opts = and_then start finish"
    unfolding startGhost_def start_def finish_def options_def Let_def and_then_assoc ..
  obtain c st' where r: "startGhost w opts st = (c, st')"
    by (cases "startGhost w opts st")
  then have run: "and_then start finish st = (c, st')"
    by (simp add: sg)
  obtain c1 st1 where r1: "start st = (c1, st1)" by (cases "start st")
  note d1 = orderlyD [OF o r1]
  have nj: "list_all (\<lambda>e. \<not> json_call e) (emitted st st1)"
    by (rule list_all_weaken [OF d1(2)]) (auto elim: json_call.elims)
  have nh: "\<not> list_ex handler_event (emitted st st1)"
    using d1(2) by (auto simp: list_all_iff list_ex_iff elim!: handler_event.elims)
  have esc1: "first_failure (escapes w) (trace st) (emitted st st1)
      = first_failure (thrown_by w) (trace st) (emitted st st1)"
    by (rule first_failure_no_toJSON [OF nj])
  have "trace st' = trace st @ emitted st st'
           \<and> propagates (escapes w) (trace st) (emitted st st') c
           \<and> (thrown_error c \<noteq> None \<longrightarrow> \<not> list_ex handler_event (emitted st st'))
           \<and> (exit_code c \<noteq> None \<longrightarrow>
                exit_code c = Some 1 \<and> list_ex handler_event (emitted st st'))"
  proof (cases c1)
    case (Thrown e)
    with r1 have r1': "start st = (Thrown e, st1)" by simp
    from run have c: "c = Thrown e" and s: "st' = st1"
      unfolding and_then_Thrown [of start st e st1, OF r1'] by simp_all
    have "thrown_error c = thrown_error c1"
      by (simp add: c Thrown)
    then have "propagates (escapes w) (trace st) (emitted st st1) c
        = propagates (thrown_by w) (trace st) (emitted st st1) c1"
      unfolding propagates_def esc1 by (simp split: option.splits)
    with d1 nh show ?thesis
      by (simp add: s c)
  next
    case (Exited n)
    with d1(4) show ?thesis by simp
  next
    case (Returned u)
    with r1 have r1': "start st = (Returned (), st1)" by simp
    obtain c3 st3 where r3: "exposeFixtures w st1 = (c3, st3)"
      by (cases "exposeFixtures w st1")
    note d3 = exposeFixtures_run [OF r3]
    from run have "and_then (exposeFixtures w)
          (\<lambda>(_ :: unit) st. (Returned (ghostServer st), st)) st1 = (c, st')"
      unfolding and_then_Returned [of start st "()" st1, OF r1'] finish_def .
    with r3 have all3: "st' = st3 \<and> thrown_error c = thrown_error c3
        \<and> exit_code c = exit_code c3"
      by (cases c3) (auto simp: and_then_def)
    then have st': "st' = st3" and te: "thrown_error c = thrown_error c3"
      and ec: "exit_code c = exit_code c3"
      by simp_all
    from d3 have t3: "trace st3 = trace st1 @ emitted st1 st3" by simp
    note t = emitted_trans [OF d1(1) t3]
    from d1(3) Returned have f1: "first_failure (escapes w) (trace st) (emitted st st1) = None"
      by (simp add: esc1 propagates_Returned)
    from d3 d1(1) have p3: "propagates (escapes w) (trace st @ emitted st st1) (emitted st1 st3) c3"
      by simp
    have p: "propagates (escapes w) (trace st) (emitted st st1 @ emitted st1 st3) c"
      by (rule propagates_exit_code [OF te propagates_append [OF f1 p3]])
    from d3 have h3: "thrown_error c3 \<noteq> None \<longrightarrow> \<not> list_ex handler_event (emitted st1 st3)"
      and x3: "exit_code c3 \<noteq> None \<longrightarrow>
          exit_code c3 = Some 1 \<and> list_ex handler_event (emitted st1 st3)"
      by simp_all
    from t p h3 x3 nh show ?thesis
      by (simp add: st' te ec)
  qed
  then show "case startGhost w opts st of
         (c, st') \<Rightarrow>
           trace st' = trace st @ emitted st st'
           \<and> propagates (escapes w) (trace st) (emitted st st') c
           \<and> (thrown_error c \<noteq> None \<longrightarrow> \<not> list_ex handler_event (emitted st st'))
           \<and> (exit_code c \<noteq> None \<longrightarrow>
                exit_code c = Some 1 \<and> list_ex handler_event (emitted st st'))"
    by (simp add: r)
qed


subsection \<open>Example runs\<close>

lemma example_disk_full_run:
  "startGhost example_world_disk_full example_no_options example_running =
     (Thrown (Error ''ENOSPC''),
      example_running\<lparr>trace := [Call (Debug ''Start Ghost''),
                                 Call (ConfigSet ''paths:contentPath'' ''/tmp/uuid/ghost-test''),
                                 Call (EnsureDirSync [''/tmp/uuid/ghost-test''])]\<rparr>)"
  by code_simp

lemma example_disk_full_prepare:
  "prepareContentFolder example_world_disk_full
       (merge_options example_world_disk_full example_no_options)
       (example_running\<lparr>trace := trace example_running @ [Call (Debug ''Start Ghost'')]\<rparr>) =
     (Thrown (Error ''ENOSPC''),
      example_running\<lparr>trace := [Call (Debug ''Start Ghost''),
                                 Call (ConfigSet ''paths:contentPath'' ''/tmp/uuid/ghost-test''),
                                 Call (EnsureDirSync [''/tmp/uuid/ghost-test''])]\<rparr>)"
  by code_simp

lemma example_prepared:
  "fst (prepareContentFolder example_world (merge_options example_world example_no_options)
          (example_running\<lparr>trace := trace example_running @ [Call (Debug ''Start Ghost'')]\<rparr>))
     = Returned ()"
  "fst (prepareContentFolder example_world (merge_options example_world example_no_options)
          (example_stopped\<lparr>trace := trace example_stopped @ [Call (Debug ''Start Ghost'')]\<rparr>))
     = Returned ()"
  by code_simp+

lemma example_start_condition:
  "server_running example_running" "\<not> server_running example_stopped"
  "\<not> forceStart (merge_options example_world example_no_options)"
  "\<not> forceStart (merge_options example_world_disk_full example_no_options)"
  by (simp_all add: server_running_def example_running_def example_stopped_def
      merge_options_def or_default_def example_no_options_def)

lemma example_settings_down_run:
  "restartModeGhostStart example_world_settings_down
       (merge_options example_world_settings_down example_no_options) example_running =
     (Thrown (Error ''settings down''),
      example_running\<lparr>trace := [Call (Debug ''Reload Mode''),
                                 Await DbTeardown, Settled DbTeardown,
                                 Await (KnexMigratorInit (Some 2)),
                                 Settled (KnexMigratorInit (Some 2)),
                                 Call (Debug ''init done''), Await SettingsInit]\<rparr>)"
  by code_simp

lemma example_tags_reject_run:
  "exposeFixtures example_world_tags_reject example_running =
     (Exited 1,
      example_running\<lparr>trace := [Call (FindAll ''Role''), Call (FindAll ''User''),
                                 Call (FindAll ''Tag''), Call (FindAll ''ApiKey''),
                                 Call (ConsoleError (Error ''no tags'')),
                                 Call (ProcessExit 1)]\<rparr>)"
  by code_simp

lemma example_bad_row_run:
  "exposeFixtures example_world_bad_row example_running =
     (Exited 1,
      \<lparr>ghostServer = Some (GhostServer 0 True),
       existingData = [(''roles'', [''Role'']), (''users'', [''User''])],
       trace = [Call (FindAll ''Role''), Call (FindAll ''User''),
                Call (FindAll ''Tag''), Call (FindAll ''ApiKey''),
                Call (ToJSON ''roles''), Call (ToJSON ''users''), Call (ToJSON ''tags''),
                Call (ConsoleError (Error ''bad row'')),
                Call (ProcessExit 1)]\<rparr>)"
  by code_simp

lemma example_bad_row_queries:
  "queries example_world_bad_row (map snd fixture_queries) example_running =
     (Returned [(0, Inr [''Role'']), (0, Inr [''User'']), (0, Inr [''Tag'']),
                (0, Inr [''ApiKey''])],
      example_running\<lparr>trace := [Call (FindAll ''Role''), Call (FindAll ''User''),
                                 Call (FindAll ''Tag''), Call (FindAll ''ApiKey'')]\<rparr>)"
  by code_simp

lemma example_limits_reject_run:
  "restartModeGhostStart example_world_limits_reject
       (merge_options example_world_limits_reject example_no_options) example_running =
     (Returned (), example_running\<lparr>trace := restart_runbook True\<rparr>)"
proof -
  have f: "frontend (merge_options example_world_limits_reject example_no_options)"
    by (simp add: merge_options_def or_default_def example_no_options_def)
  have t: "trace example_running = []"
    by (simp add: example_running_def)
  have n: "first_failure (thrown_by example_world_limits_reject) [] (restart_runbook True) = None"
    by code_simp
  show ?thesis
    unfolding restart_run t using f by (simp add: n)
qed

lemma example_limits_reply:
  "reply example_world_limits_reject tr LimitsInit = Rejects (Error ''no limits'')"
  by (simp add: reply_def example_world_limits_reject_def example_world_def)

lemma example_bad_row_start:
  "fst (startGhost example_world_bad_row example_no_options example_stopped) = Exited 1"
  by code_simp

text \<open>
  Against C4 as it is stated, by which no call of \<open>startGhost\<close> runs neither start path: a
  call in which \<open>prepareContentFolder\<close> throws (here the first \<open>ensureDirSync\<close> fails) runs
  neither, though a server with an \<open>httpServer\<close> exists and \<open>forceStart\<close> is false.
\<close>

theorem startGhost_neither_path_counterexample:
  "server_running example_running
   \<and> \<not> forceStart (merge_options example_world_disk_full example_no_options)
   \<and> \<not> ran_restart (trace (snd (startGhost example_world_disk_full example_no_options
                                    example_running)))
   \<and> \<not> ran_fresh (trace (snd (startGhost example_world_disk_full example_no_options
                                  example_running)))"
  unfolding example_disk_full_run
  by (simp add: example_start_condition ran_restart_def ran_fresh_def)

text \<open>
  With default options, a running server is restarted and a missing one is started afresh;
  with a full disk the call rejects with the error of \<open>ensureDirSync\<close> and starts nothing.
\<close>

theorem startGhost_two_paths_witness:
  "ran_restart (emitted example_running
       (snd (startGhost example_world example_no_options example_running)))
   \<and> \<not> ran_fresh (emitted example_running
       (snd (startGhost example_world example_no_options example_running)))
   \<and> ran_fresh (emitted example_stopped
       (snd (startGhost example_world example_no_options example_stopped)))
   \<and> \<not> ran_restart (emitted example_stopped
       (snd (startGhost example_world example_no_options example_stopped)))
   \<and> thrown_error (fst (startGhost example_world_disk_full example_no_options example_running))
       = Some (Error ''ENOSPC'')
   \<and> \<not> ran_restart (emitted example_running
       (snd (startGhost example_world_disk_full example_no_options example_running)))
   \<and> \<not> ran_fresh (emitted example_running
       (snd (startGhost example_world_disk_full example_no_options example_running)))"
proof -
  have r: "startGhost example_world example_no_options example_running
      = (fst (startGhost example_world example_no_options example_running),
         snd (startGhost example_world example_no_options example_running))"
    by simp
  have s: "startGhost example_world example_no_options example_stopped
      = (fst (startGhost example_world example_no_options example_stopped),
         snd (startGhost example_world example_no_options example_stopped))"
    by simp
  have d: "startGhost example_world_disk_full example_no_options example_running
      = (fst (startGhost example_world_disk_full example_no_options example_running),
         snd (startGhost example_world_disk_full example_no_options example_running))"
    by simp
  from startGhost_two_paths [OF r] startGhost_two_paths [OF s]
  have 1: "ran_restart (emitted example_running
       (snd (startGhost example_world example_no_options example_running)))
   \<and> \<not> ran_fresh (emitted example_running
       (snd (startGhost example_world example_no_options example_running)))
   \<and> ran_fresh (emitted example_stopped
       (snd (startGhost example_world example_no_options example_stopped)))
   \<and> \<not> ran_restart (emitted example_stopped
       (snd (startGhost example_world example_no_options example_stopped)))"
    by (simp add: example_prepared example_start_condition)
  from startGhost_two_paths [OF d]
  have 2: "thrown_error (fst (startGhost example_world_disk_full example_no_options example_running))
       = Some (Error ''ENOSPC'')
   \<and> \<not> ran_restart (emitted example_running
       (snd (startGhost example_world_disk_full example_no_options example_running)))
   \<and> \<not> ran_fresh (emitted example_running
       (snd (startGhost example_world_disk_full example_no_options example_running)))"
    unfolding example_disk_full_prepare
    by (simp add: emitted_def example_running_def ran_restart_def ran_fresh_def)
  from 1 2 show ?thesis by simp
qed

text \<open>
  When the settings service rejects, the run stops in its \<open>await\<close>: teardown and the fixture
  init have settled, nothing after \<open>settingsService.init()\<close> is started. When \<open>limits.init()\<close>,
  which is not awaited, returns a promise that rejects, the whole runbook runs and the
  function returns.
\<close>

theorem restart_is_linear_runbook_witness:
  "restartModeGhostStart example_world_settings_down
       (merge_options example_world_settings_down example_no_options) example_running =
     (Thrown (Error ''settings down''),
      example_running\<lparr>trace := [Call (Debug ''Reload Mode''),
                                 Await DbTeardown, Settled DbTeardown,
                                 Await (KnexMigratorInit (Some 2)),
                                 Settled (KnexMigratorInit (Some 2)),
                                 Call (Debug ''init done''), Await SettingsInit]\<rparr>)
   \<and> prefix [Call (Debug ''Reload Mode''), Await DbTeardown, Settled DbTeardown,
              Await (KnexMigratorInit (Some 2)), Settled (KnexMigratorInit (Some 2)),
              Call (Debug ''init done''), Await SettingsInit] (restart_runbook True)
   \<and> comes_before (Settled DbTeardown) (Await (KnexMigratorInit (Some 2)))
        [Call (Debug ''Reload Mode''), Await DbTeardown, Settled DbTeardown,
         Await (KnexMigratorInit (Some 2)), Settled (KnexMigratorInit (Some 2)),
         Call (Debug ''init done''), Await SettingsInit]
   \<and> reply example_world_limits_reject (restart_runbook True) LimitsInit
        = Rejects (Error ''no limits'')
   \<and> restartModeGhostStart example_world_limits_reject
       (merge_options example_world_limits_reject example_no_options) example_running =
     (Returned (), example_running\<lparr>trace := restart_runbook True\<rparr>)
   \<and> comes_before (Settled CustomRedirectsInit) (Call LimitsInit) (restart_runbook True)"
proof -
  have em: "emitted example_running
      (example_running\<lparr>trace := tr\<rparr>) = tr" for tr
    by (simp add: emitted_def example_running_def)
  have f: "frontend (merge_options example_world_settings_down example_no_options)"
    "frontend (merge_options example_world_limits_reject example_no_options)"
    by (simp_all add: merge_options_def or_default_def example_no_options_def)
  from restart_is_linear_runbook [OF example_settings_down_run]
  have 1: "prefix [Call (Debug ''Reload Mode''), Await DbTeardown, Settled DbTeardown,
              Await (KnexMigratorInit (Some 2)), Settled (KnexMigratorInit (Some 2)),
              Call (Debug ''init done''), Await SettingsInit] (restart_runbook True)
   \<and> comes_before (Settled DbTeardown) (Await (KnexMigratorInit (Some 2)))
        [Call (Debug ''Reload Mode''), Await DbTeardown, Settled DbTeardown,
         Await (KnexMigratorInit (Some 2)), Settled (KnexMigratorInit (Some 2)),
         Call (Debug ''init done''), Await SettingsInit]"
    unfolding em using f(1) by simp
  from restart_is_linear_runbook [OF example_limits_reject_run]
  have 2: "comes_before (Settled CustomRedirectsInit) (Call LimitsInit) (restart_runbook True)"
    unfolding em using f(2) by simp
  from 1 2 show ?thesis
    by (simp add: example_settings_down_run example_limits_reject_run example_limits_reply)
qed

text \<open>
  Against C6 as it is stated, by which an error thrown by any step other than a rejected
  fixture query propagates to the caller: all four queries resolve, \<open>toJSON\<close> throws for the
  tags, and the \<open>.catch\<close>, which follows the \<open>.then\<close>, logs the error and ends the process
  with code 1; \<open>startGhost\<close> does not reject.
\<close>

theorem toJSON_throw_is_caught_counterexample:
  "queries example_world_bad_row (map snd fixture_queries) example_running =
     (Returned [(0, Inr [''Role'']), (0, Inr [''User'']), (0, Inr [''Tag'']),
                (0, Inr [''ApiKey''])],
      example_running\<lparr>trace := [Call (FindAll ''Role''), Call (FindAll ''User''),
                                 Call (FindAll ''Tag''), Call (FindAll ''ApiKey'')]\<rparr>)
   \<and> reply example_world_bad_row
        [Call (FindAll ''Role''), Call (FindAll ''User''), Call (FindAll ''Tag''),
         Call (FindAll ''ApiKey''), Call (ToJSON ''roles''), Call (ToJSON ''users'')]
        (ToJSON ''tags'') = Throws (Error ''bad row'')
   \<and> exposeFixtures example_world_bad_row example_running =
     (Exited 1,
      \<lparr>ghostServer = Some (GhostServer 0 True),
       existingData = [(''roles'', [''Role'']), (''users'', [''User''])],
       trace = [Call (FindAll ''Role''), Call (FindAll ''User''),
                Call (FindAll ''Tag''), Call (FindAll ''ApiKey''),
                Call (ToJSON ''roles''), Call (ToJSON ''users''), Call (ToJSON ''tags''),
                Call (ConsoleError (Error ''bad row'')),
                Call (ProcessExit 1)]\<rparr>)
   \<and> fst (startGhost example_world_bad_row example_no_options example_stopped) = Exited 1"
  by (simp add: example_bad_row_queries example_bad_row_run example_bad_row_start)
     (simp add: reply_def example_world_bad_row_def example_world_def)

lemma example_tags_reject_queries:
  "queries example_world_tags_reject (map snd fixture_queries) example_running =
     (Returned [(0, Inr [''Role'']), (0, Inr [''User'']), (0, Inl (Error ''no tags'')),
                (0, Inr [''ApiKey''])],
      example_running\<lparr>trace := [Call (FindAll ''Role''), Call (FindAll ''User''),
                                 Call (FindAll ''Tag''), Call (FindAll ''ApiKey'')]\<rparr>)"
  by code_simp

text \<open>
  A rejected tags query ends the process with code 1 after logging its reason; a full disk
  in \<open>prepareContentFolder\<close> reaches the caller as the error thrown, unhandled.
\<close>

theorem fixture_errors_exit_other_errors_propagate_witness:
  "exposeFixtures example_world_tags_reject example_running =
     (Exited 1,
      example_running\<lparr>trace := [Call (FindAll ''Role''), Call (FindAll ''User''),
                                 Call (FindAll ''Tag''), Call (FindAll ''ApiKey''),
                                 Call (ConsoleError (Error ''no tags'')),
                                 Call (ProcessExit 1)]\<rparr>)
   \<and> fst (exposeFixtures example_world_tags_reject example_running) = Exited 1
   \<and> propagates (escapes example_world_disk_full) []
        (trace (snd (startGhost example_world_disk_full example_no_options example_running)))
        (fst (startGhost example_world_disk_full example_no_options example_running))
   \<and> fst (startGhost example_world_disk_full example_no_options example_running)
        = Thrown (Error ''ENOSPC'')
   \<and> \<not> list_ex handler_event
          (trace (snd (startGhost example_world_disk_full example_no_options example_running)))"
proof -
  note a = fixture_errors_exit_other_errors_propagate
    [of example_world_tags_reject example_running
        "[(0, Inr [''Role'']), (0, Inr [''User'']), (0, Inl (Error ''no tags'')),
          (0, Inr [''ApiKey''])]"
        "example_running\<lparr>trace := [Call (FindAll ''Role''), Call (FindAll ''User''),
                                 Call (FindAll ''Tag''), Call (FindAll ''ApiKey'')]\<rparr>"]
  note b = fixture_errors_exit_other_errors_propagate
    [of example_world_disk_full example_running _ _ _ _ example_no_options]
  have tr: "trace example_running = []"
    by (simp add: example_running_def)
  have em: "emitted example_running
      (snd (startGhost example_world_disk_full example_no_options example_running))
      = trace (snd (startGhost example_world_disk_full example_no_options example_running))"
    by (simp add: emitted_def tr)
  from b have b1: "propagates (escapes example_world_disk_full) []
        (trace (snd (startGhost example_world_disk_full example_no_options example_running)))
        (fst (startGhost example_world_disk_full example_no_options example_running))
      \<and> (thrown_error (fst (startGhost example_world_disk_full example_no_options
                                example_running)) \<noteq> None \<longrightarrow>
           \<not> list_ex handler_event
              (trace (snd (startGhost example_world_disk_full example_no_options
                             example_running))))"
    by (simp add: case_prod_unfold em tr)
  from a example_tags_reject_queries
  have a1: "\<exists>e. list_ex (\<lambda>p. snd p = Inl e)
        [(0 :: nat, Inr [''Role'']), (0, Inr [''User'']), (0, Inl (Error ''no tags'')),
          (0, Inr [''ApiKey''])]
      \<and> exposeFixtures example_world_tags_reject example_running =
           (Exited 1,
            example_running\<lparr>trace := [Call (FindAll ''Role''), Call (FindAll ''User''),
                                 Call (FindAll ''Tag''), Call (FindAll ''ApiKey'')],
               existingData := [],
               trace := [Call (FindAll ''Role''), Call (FindAll ''User''),
                         Call (FindAll ''Tag''), Call (FindAll ''ApiKey'')]
                  @ [Call (ConsoleError e), Call (ProcessExit 1)]\<rparr>)"
    by simp
  then have a2: "fst (exposeFixtures example_world_tags_reject example_running) = Exited 1"
    by auto
  from b1 a2 show ?thesis
    by (simp add: example_tags_reject_run example_disk_full_run)
qed

end
